theory Spec2Isabelle
  imports Main "HOL-Library.Word"
begin

section \<open>The ITCH parser of \<^verbatim>\<open>Design/sim/itch_parser.py\<close>\<close>

text \<open>
  A shallow embedding of the software ITCH parser: the type registry
  (\<^verbatim>\<open>MSG_CHAR_TO_TYPE\<close>, \<^verbatim>\<open>MSG_LENGTHS\<close>), the record \<^verbatim>\<open>ParsedMessage\<close>, the class
  \<^verbatim>\<open>ITCHParser\<close> (\<^verbatim>\<open>reset\<close>, \<^verbatim>\<open>feed_byte\<close>, \<^verbatim>\<open>parse_message\<close>, \<^verbatim>\<open>_decode_message\<close>) and the
  nine message generators.

  Conventions. A Python \<^verbatim>\<open>bytes\<close>/\<^verbatim>\<open>bytearray\<close> is a list of 8-bit words; a Python \<^verbatim>\<open>int\<close>
  is an \<^typ>\<open>int\<close>; a Python \<^verbatim>\<open>str\<close> is a \<^typ>\<open>string\<close> (characters with codes 0..255, of
  which those below 128 are ASCII). The mutable parser object is a record that every
  method takes and returns. An exception is the \<open>Inl\<close> branch of a sum.
\<close>

type_synonym byte = "8 word"

datatype error = IndexError | OverflowError | UnicodeEncodeError

subsection \<open>Built-ins of Python used by the source\<close>

text \<open>\<^verbatim>\<open>ord(c)\<close> for a one-character string, read as a byte value.\<close>

definition ord :: "char \<Rightarrow> byte" where
  "ord c = of_char c"

text \<open>\<^verbatim>\<open>int.from_bytes(bs, 'big')\<close>: the unsigned big-endian value; 0 for no bytes.\<close>

definition from_bytes_big :: "byte list \<Rightarrow> int" where
  "from_bytes_big bs = foldl (\<lambda>acc b. acc * 256 + uint b) 0 bs"

text \<open>
  \<^verbatim>\<open>x.to_bytes(n, 'big')\<close>: the \<open>n\<close> big-endian bytes of \<open>x\<close>; OverflowError when \<open>x\<close> is
  negative or does not fit in \<open>n\<close> bytes.
\<close>

fun be_bytes :: "nat \<Rightarrow> int \<Rightarrow> byte list" where
  "be_bytes 0 x = []"
| "be_bytes (Suc n) x = be_bytes n (x div 256) @ [word_of_int (x mod 256)]"

definition to_bytes_big :: "int \<Rightarrow> nat \<Rightarrow> error + byte list" where
  "to_bytes_big x n = (if x < 0 \<or> 256 ^ n \<le> x then Inl OverflowError else Inr (be_bytes n x))"

text \<open>\<^verbatim>\<open>bytes(n)\<close>: \<open>n\<close> zero bytes.\<close>

definition bytes_zero :: "nat \<Rightarrow> byte list" where
  "bytes_zero n = replicate n 0"

text \<open>\<^verbatim>\<open>buf[a:b]\<close> for literal bounds \<open>0 \<le> a \<le> b\<close>: a slice is cut at the end of the list.\<close>

definition py_slice :: "'a list \<Rightarrow> nat \<Rightarrow> nat \<Rightarrow> 'a list" where
  "py_slice xs a b = take (b - a) (drop a xs)"

text \<open>\<^verbatim>\<open>buf[i]\<close> for a literal \<open>i \<ge> 0\<close>: IndexError out of range.\<close>

definition getitem :: "'a list \<Rightarrow> nat \<Rightarrow> error + 'a" where
  "getitem xs i = (if i < length xs then Inr (xs ! i) else Inl IndexError)"

text \<open>\<^verbatim>\<open>s.ljust(w)\<close>: pad with spaces on the right up to width \<open>w\<close>.\<close>

definition ljust :: "string \<Rightarrow> nat \<Rightarrow> string" where
  "ljust s w = s @ replicate (w - length s) CHR '' ''"

text \<open>\<^verbatim>\<open>s.encode('ascii')\<close>: UnicodeEncodeError on a character that is not ASCII.\<close>

definition is_ascii :: "string \<Rightarrow> bool" where
  "is_ascii s = list_all (\<lambda>c. (of_char c :: nat) < 128) s"

definition encode_ascii :: "string \<Rightarrow> error + byte list" where
  "encode_ascii s = (if is_ascii s then Inr (map of_char s) else Inl UnicodeEncodeError)"

text \<open>
  The sum \<^verbatim>\<open>b0 + b1 + ... + bk\<close> of byte strings whose operands may raise: Python
  evaluates the operands from left to right, so the first exception is the one raised.
\<close>

fun concat_bytes :: "(error + byte list) list \<Rightarrow> error + byte list" where
  "concat_bytes [] = Inr []"
| "concat_bytes (Inl e # rest) = Inl e"
| "concat_bytes (Inr bs # rest) =
     (case concat_bytes rest of Inl e \<Rightarrow> Inl e | Inr cs \<Rightarrow> Inr (bs @ cs))"

subsection \<open>Message types and the type registry\<close>

datatype MessageType =
    ADD_ORDER
  | CANCEL_ORDER
  | DELETE_ORDER
  | EXECUTED_ORDER
  | REPLACE_ORDER
  | TRADE
  | ADD_ORDER_MPID
  | EXECUTED_PRICE
  | BROKEN_TRADE

text \<open>The value of a member of the \<^verbatim>\<open>IntEnum\<close>.\<close>

fun MessageType_value :: "MessageType \<Rightarrow> int" where
  "MessageType_value ADD_ORDER = 0"
| "MessageType_value CANCEL_ORDER = 1"
| "MessageType_value DELETE_ORDER = 2"
| "MessageType_value EXECUTED_ORDER = 3"
| "MessageType_value REPLACE_ORDER = 4"
| "MessageType_value TRADE = 5"
| "MessageType_value ADD_ORDER_MPID = 6"
| "MessageType_value EXECUTED_PRICE = 7"
| "MessageType_value BROKEN_TRADE = 8"

text \<open>The dictionary \<^verbatim>\<open>MSG_CHAR_TO_TYPE\<close>, in the order of its literal.\<close>

definition MSG_CHAR_TO_TYPE_items :: "(byte \<times> MessageType) list" where
  "MSG_CHAR_TO_TYPE_items =
     [(ord CHR ''A'', ADD_ORDER),
      (ord CHR ''X'', CANCEL_ORDER),
      (ord CHR ''D'', DELETE_ORDER),
      (ord CHR ''E'', EXECUTED_ORDER),
      (ord CHR ''U'', REPLACE_ORDER),
      (ord CHR ''P'', TRADE),
      (ord CHR ''F'', ADD_ORDER_MPID),
      (ord CHR ''C'', EXECUTED_PRICE),
      (ord CHR ''B'', BROKEN_TRADE)]"

definition MSG_CHAR_TO_TYPE :: "byte \<rightharpoonup> MessageType" where
  "MSG_CHAR_TO_TYPE = map_of MSG_CHAR_TO_TYPE_items"

text \<open>
  The dictionary \<^verbatim>\<open>MSG_LENGTHS\<close> of \<^verbatim>\<open>itch_parser.py\<close>: it has a key for each of the nine
  members, so the lookup \<^verbatim>\<open>MSG_LENGTHS[self.msg_type]\<close> never raises.
\<close>

fun MSG_LENGTHS :: "MessageType \<Rightarrow> nat" where
  "MSG_LENGTHS ADD_ORDER = 36"
| "MSG_LENGTHS CANCEL_ORDER = 23"
| "MSG_LENGTHS DELETE_ORDER = 9"
| "MSG_LENGTHS EXECUTED_ORDER = 30"
| "MSG_LENGTHS REPLACE_ORDER = 27"
| "MSG_LENGTHS TRADE = 40"
| "MSG_LENGTHS ADD_ORDER_MPID = 40"
| "MSG_LENGTHS EXECUTED_PRICE = 36"
| "MSG_LENGTHS BROKEN_TRADE = 19"

text \<open>The dictionary \<^verbatim>\<open>MSG_LENGTHS\<close> of \<^verbatim>\<open>ITCH_config.py\<close>, keyed by name.\<close>

definition config_MSG_LENGTHS :: "(string \<times> nat) list" where
  "config_MSG_LENGTHS =
     [(''add'', 36),
      (''cancel'', 23),
      (''replace'', 27),
      (''delete'', 9),
      (''executed'', 30),
      (''trade'', 40),
      (''add_mpid'', 40),
      (''broken_trade'', 19),
      (''executed_price'', 36)]"

subsection \<open>Message generators\<close>

text \<open>
  The generators come before the record \<^verbatim>\<open>ParsedMessage\<close> so that their parameters can
  keep the names of the source, which are also names of its fields.
\<close>

definition gen_delete_order :: "int \<Rightarrow> error + byte list" where
  "gen_delete_order order_ref =
     concat_bytes [Inr [ord CHR ''D''], to_bytes_big order_ref 8]"

definition gen_add_order ::
  "int \<Rightarrow> int \<Rightarrow> string \<Rightarrow> int \<Rightarrow> string \<Rightarrow> int \<Rightarrow> error + byte list" where
  "gen_add_order timestamp order_ref side shares stock price =
     (case encode_ascii (take 8 (ljust stock 8)) of
        Inl e \<Rightarrow> Inl e
      | Inr stock_bytes \<Rightarrow>
          (let side_byte = (if side = ''S'' then ord CHR ''S'' else ord CHR ''B'')
           in concat_bytes
                [Inr [ord CHR ''A''],
                 to_bytes_big timestamp 6,
                 to_bytes_big order_ref 8,
                 Inr [side_byte],
                 to_bytes_big shares 4,
                 Inr stock_bytes,
                 to_bytes_big price 4,
                 Inr (bytes_zero 4)]))"

definition gen_cancel_order :: "int \<Rightarrow> int \<Rightarrow> int \<Rightarrow> error + byte list" where
  "gen_cancel_order timestamp order_ref canceled_shares =
     concat_bytes
       [Inr [ord CHR ''X''],
        to_bytes_big timestamp 6,
        to_bytes_big order_ref 8,
        to_bytes_big canceled_shares 4,
        Inr (bytes_zero 4)]"

definition gen_executed_order :: "int \<Rightarrow> int \<Rightarrow> int \<Rightarrow> int \<Rightarrow> error + byte list" where
  "gen_executed_order timestamp order_ref executed_shares match_id =
     concat_bytes
       [Inr [ord CHR ''E''],
        to_bytes_big timestamp 6,
        to_bytes_big order_ref 8,
        to_bytes_big executed_shares 4,
        to_bytes_big match_id 8,
        Inr (bytes_zero 3)]"

definition gen_replace_order :: "int \<Rightarrow> int \<Rightarrow> int \<Rightarrow> int \<Rightarrow> error + byte list" where
  "gen_replace_order timestamp old_order_ref new_order_ref shares =
     concat_bytes
       [Inr [ord CHR ''U''],
        to_bytes_big timestamp 6,
        to_bytes_big old_order_ref 8,
        to_bytes_big new_order_ref 8,
        to_bytes_big shares 4]"

definition gen_trade ::
  "int \<Rightarrow> int \<Rightarrow> string \<Rightarrow> int \<Rightarrow> string \<Rightarrow> int \<Rightarrow> int \<Rightarrow> error + byte list" where
  "gen_trade timestamp order_ref side shares stock price match_id =
     (case encode_ascii (take 8 (ljust stock 8)) of
        Inl e \<Rightarrow> Inl e
      | Inr stock_bytes \<Rightarrow>
          (let side_byte = (if side = ''S'' then ord CHR ''S'' else ord CHR ''B'')
           in concat_bytes
                [Inr [ord CHR ''P''],
                 to_bytes_big timestamp 6,
                 to_bytes_big order_ref 8,
                 Inr [side_byte],
                 to_bytes_big shares 4,
                 Inr stock_bytes,
                 to_bytes_big price 4,
                 to_bytes_big match_id 8]))"

definition gen_add_order_mpid ::
  "int \<Rightarrow> int \<Rightarrow> string \<Rightarrow> int \<Rightarrow> string \<Rightarrow> int \<Rightarrow> string \<Rightarrow> error + byte list" where
  "gen_add_order_mpid timestamp order_ref side shares stock price mpid =
     (case encode_ascii (take 8 (ljust stock 8)) of
        Inl e \<Rightarrow> Inl e
      | Inr stock_bytes \<Rightarrow>
          (case encode_ascii (take 4 (ljust mpid 4)) of
             Inl e \<Rightarrow> Inl e
           | Inr mpid_bytes \<Rightarrow>
               (let side_byte = (if side = ''S'' then ord CHR ''S'' else ord CHR ''B'')
                in concat_bytes
                     [Inr [ord CHR ''F''],
                      to_bytes_big timestamp 6,
                      to_bytes_big order_ref 8,
                      Inr [side_byte],
                      to_bytes_big shares 4,
                      Inr stock_bytes,
                      to_bytes_big price 4,
                      Inr mpid_bytes,
                      Inr (bytes_zero 4)])))"

definition gen_executed_price ::
  "int \<Rightarrow> int \<Rightarrow> int \<Rightarrow> int \<Rightarrow> bool \<Rightarrow> int \<Rightarrow> error + byte list" where
  "gen_executed_price timestamp order_ref executed_shares match_id printable exec_price =
     concat_bytes
       [Inr [ord CHR ''C''],
        to_bytes_big timestamp 6,
        to_bytes_big order_ref 8,
        to_bytes_big executed_shares 4,
        to_bytes_big match_id 8,
        Inr [if printable then ord CHR ''Y'' else ord CHR ''N''],
        to_bytes_big exec_price 4,
        Inr (bytes_zero 4)]"

definition gen_broken_trade :: "int \<Rightarrow> int \<Rightarrow> error + byte list" where
  "gen_broken_trade timestamp match_id =
     concat_bytes
       [Inr [ord CHR ''B''],
        to_bytes_big timestamp 6,
        to_bytes_big match_id 8,
        Inr (bytes_zero 4)]"

subsection \<open>ParsedMessage\<close>

text \<open>
  The dataclass. \<open>msg_type\<close> holds an integer (a member of the \<^verbatim>\<open>IntEnum\<close> is equal to
  its value) or \<^verbatim>\<open>None\<close>, which \<^verbatim>\<open>_decode_message\<close> would copy from a parser whose
  \<^verbatim>\<open>msg_type\<close> is \<^verbatim>\<open>None\<close>.
\<close>

record ParsedMessage =
  valid :: bool
  msg_type :: "int option"
  order_ref :: int
  side :: int
  shares :: int
  price :: int
  new_order_ref :: int
  timestamp :: int
  misc_data :: int

text \<open>\<^verbatim>\<open>ParsedMessage()\<close>: every field at its default.\<close>

definition ParsedMessage_init :: ParsedMessage where
  "ParsedMessage_init =
     \<lparr>valid = False, msg_type = Some 0, order_ref = 0, side = 0, shares = 0, price = 0,
      new_order_ref = 0, timestamp = 0, misc_data = 0\<rparr>"

subsection \<open>ITCHParser\<close>

record parser =
  self_byte_index :: nat
  self_msg_type :: "MessageType option"
  self_msg_length :: nat
  self_buffer :: "byte list"
  self_result :: ParsedMessage

definition reset :: "parser \<Rightarrow> parser" where
  "reset self =
     self\<lparr>self_byte_index := 0, self_msg_type := None, self_msg_length := 0,
          self_buffer := [], self_result := ParsedMessage_init\<rparr>"

text \<open>
  \<^verbatim>\<open>ITCHParser()\<close>: the constructor only calls \<^verbatim>\<open>reset\<close>, which assigns every attribute,
  so the record it starts from does not matter.
\<close>

definition ITCHParser_init :: parser where
  "ITCHParser_init =
     reset \<lparr>self_byte_index = 0, self_msg_type = None, self_msg_length = 0,
            self_buffer = [], self_result = ParsedMessage_init\<rparr>"

definition decode_message :: "parser \<Rightarrow> error + ParsedMessage" where
  "decode_message self =
     (let msg = ParsedMessage_init
            \<lparr>valid := True, msg_type := map_option MessageType_value (self_msg_type self)\<rparr>;
          buf = self_buffer self
      in case self_msg_type self of
           Some DELETE_ORDER \<Rightarrow>
             Inr (msg\<lparr>order_ref := from_bytes_big (py_slice buf 1 9)\<rparr>)
         | Some ADD_ORDER \<Rightarrow>
             (case getitem buf 15 of
                Inl e \<Rightarrow> Inl e
              | Inr b15 \<Rightarrow>
                  Inr (msg\<lparr>timestamp := from_bytes_big (py_slice buf 1 7),
                           order_ref := from_bytes_big (py_slice buf 7 15),
                           side := (if b15 = ord CHR ''S'' then 1 else 0),
                           shares := from_bytes_big (py_slice buf 16 20),
                           misc_data := from_bytes_big (py_slice buf 20 28),
                           price := from_bytes_big (py_slice buf 28 32)\<rparr>))
         | Some CANCEL_ORDER \<Rightarrow>
             Inr (msg\<lparr>timestamp := from_bytes_big (py_slice buf 1 7),
                      order_ref := from_bytes_big (py_slice buf 7 15),
                      shares := from_bytes_big (py_slice buf 15 19)\<rparr>)
         | Some EXECUTED_ORDER \<Rightarrow>
             Inr (msg\<lparr>timestamp := from_bytes_big (py_slice buf 1 7),
                      order_ref := from_bytes_big (py_slice buf 7 15),
                      shares := from_bytes_big (py_slice buf 15 19),
                      misc_data := from_bytes_big (py_slice buf 19 27)\<rparr>)
         | Some REPLACE_ORDER \<Rightarrow>
             Inr (msg\<lparr>timestamp := from_bytes_big (py_slice buf 1 7),
                      order_ref := from_bytes_big (py_slice buf 7 15),
                      new_order_ref := from_bytes_big (py_slice buf 15 23),
                      shares := from_bytes_big (py_slice buf 23 27)\<rparr>)
         | Some TRADE \<Rightarrow>
             (case getitem buf 15 of
                Inl e \<Rightarrow> Inl e
              | Inr b15 \<Rightarrow>
                  Inr (msg\<lparr>timestamp := from_bytes_big (py_slice buf 1 7),
                           order_ref := from_bytes_big (py_slice buf 7 15),
                           side := (if b15 = ord CHR ''S'' then 1 else 0),
                           shares := from_bytes_big (py_slice buf 16 20),
                           price := from_bytes_big (py_slice buf 28 32),
                           misc_data := from_bytes_big (py_slice buf 32 40)\<rparr>))
         | Some ADD_ORDER_MPID \<Rightarrow>
             (case getitem buf 15 of
                Inl e \<Rightarrow> Inl e
              | Inr b15 \<Rightarrow>
                  Inr (msg\<lparr>timestamp := from_bytes_big (py_slice buf 1 7),
                           order_ref := from_bytes_big (py_slice buf 7 15),
                           side := (if b15 = ord CHR ''S'' then 1 else 0),
                           shares := from_bytes_big (py_slice buf 16 20),
                           misc_data := from_bytes_big (py_slice buf 20 28),
                           price := from_bytes_big (py_slice buf 28 32)\<rparr>))
         | Some EXECUTED_PRICE \<Rightarrow>
             Inr (msg\<lparr>timestamp := from_bytes_big (py_slice buf 1 7),
                      order_ref := from_bytes_big (py_slice buf 7 15),
                      shares := from_bytes_big (py_slice buf 15 19),
                      misc_data := from_bytes_big (py_slice buf 19 27),
                      price := from_bytes_big (py_slice buf 28 32)\<rparr>)
         | Some BROKEN_TRADE \<Rightarrow>
             Inr (msg\<lparr>timestamp := from_bytes_big (py_slice buf 1 7),
                      misc_data := from_bytes_big (py_slice buf 7 15)\<rparr>)
         | None \<Rightarrow> Inr msg)"

text \<open>
  \<^verbatim>\<open>feed_byte\<close> returns the parser after the call and what the call returns or raises.
  When \<^verbatim>\<open>_decode_message\<close> raises, the reset after it is not reached: the parser keeps
  the buffer and the counter it had at the call of \<^verbatim>\<open>_decode_message\<close>.
\<close>

definition feed_byte :: "parser \<Rightarrow> byte \<Rightarrow> parser \<times> (error + ParsedMessage)" where
  "feed_byte self byte =
     (let accepted =
            (if self_byte_index self = 0 then
               (case MSG_CHAR_TO_TYPE byte of
                  Some t \<Rightarrow>
                    Some (self\<lparr>self_msg_type := Some t, self_msg_length := MSG_LENGTHS t,
                               self_buffer := [byte]\<rparr>)
                | None \<Rightarrow> None)
             else Some (self\<lparr>self_buffer := self_buffer self @ [byte]\<rparr>))
      in case accepted of
           None \<Rightarrow> (reset self, Inr (ParsedMessage_init\<lparr>valid := False\<rparr>))
         | Some s1 \<Rightarrow>
             (let s2 = s1\<lparr>self_byte_index := self_byte_index s1 + 1\<rparr>
              in if self_msg_length s2 \<le> self_byte_index s2 then
                   (case decode_message s2 of
                      Inl e \<Rightarrow> (s2, Inl e)
                    | Inr result \<Rightarrow> (reset s2, Inr result))
                 else (s2, Inr (ParsedMessage_init\<lparr>valid := False\<rparr>))))"

text \<open>The loop of \<^verbatim>\<open>parse_message\<close>, and \<^verbatim>\<open>parse_message\<close> itself.\<close>

fun parse_loop :: "parser \<Rightarrow> byte list \<Rightarrow> parser \<times> (error + ParsedMessage)" where
  "parse_loop self [] = (self, Inr (ParsedMessage_init\<lparr>valid := False\<rparr>))"
| "parse_loop self (byte # data) =
     (case feed_byte self byte of
        (s, Inl e) \<Rightarrow> (s, Inl e)
      | (s, Inr result) \<Rightarrow> if valid result then (s, Inr result) else parse_loop s data)"

definition parse_message :: "parser \<Rightarrow> byte list \<Rightarrow> parser \<times> (error + ParsedMessage)" where
  "parse_message self data = parse_loop (reset self) data"

text \<open>
  The loop of the class's usage note, \<^verbatim>\<open>for byte in message_bytes: result =
  parser.feed_byte(byte)\<close>: every byte is fed, and the results are kept in order. An
  exception ends the loop.
\<close>

fun feed_bytes :: "parser \<Rightarrow> byte list \<Rightarrow> parser \<times> (error + ParsedMessage list)" where
  "feed_bytes self [] = (self, Inr [])"
| "feed_bytes self (byte # data) =
     (case feed_byte self byte of
        (s, Inl e) \<Rightarrow> (s, Inl e)
      | (s, Inr result) \<Rightarrow>
          (case feed_bytes s data of
             (s', Inl e) \<Rightarrow> (s', Inl e)
           | (s', Inr results) \<Rightarrow> (s', Inr (result # results))))"

subsection \<open>Auxiliary notions for the statements\<close>

text \<open>
  The parser at the moment \<^verbatim>\<open>feed_byte\<close> calls \<^verbatim>\<open>_decode_message\<close> on a frame \<open>frame\<close> of
  type \<open>t\<close>, and the result of that call.
\<close>

definition completed :: "MessageType \<Rightarrow> byte list \<Rightarrow> parser" where
  "completed t frame =
     \<lparr>self_byte_index = length frame, self_msg_type = Some t, self_msg_length = MSG_LENGTHS t,
      self_buffer = frame, self_result = ParsedMessage_init\<rparr>"

definition decode_frame :: "MessageType \<Rightarrow> byte list \<Rightarrow> error + ParsedMessage" where
  "decode_frame t frame = decode_message (completed t frame)"

text \<open>
  The states the parser is in between calls, when it is only driven through its methods:
  the initial state, or a frame of a known type begun and not complete.
\<close>

definition wf :: "parser \<Rightarrow> bool" where
  "wf s =
     (case self_msg_type s of
        None \<Rightarrow> s = ITCHParser_init
      | Some t \<Rightarrow>
          self_msg_length s = MSG_LENGTHS t \<and> self_byte_index s = length (self_buffer s) \<and>
          0 < self_byte_index s \<and> self_byte_index s < self_msg_length s \<and>
          self_result s = ParsedMessage_init)"

section \<open>Basic facts\<close>

subsection \<open>Bytes and integers\<close>

lemma ord_simps:
  "ord CHR ''A'' = 65" "ord CHR ''X'' = 88" "ord CHR ''D'' = 68" "ord CHR ''E'' = 69"
  "ord CHR ''U'' = 85" "ord CHR ''P'' = 80" "ord CHR ''F'' = 70" "ord CHR ''C'' = 67"
  "ord CHR ''B'' = 66" "ord CHR ''S'' = 83" "ord CHR ''Y'' = 89" "ord CHR ''N'' = 78"
  by (simp_all add: ord_def)

lemma length_be_bytes: "length (be_bytes n x) = n"
  by (induction n arbitrary: x) simp_all

lemma from_bytes_big_snoc: "from_bytes_big (bs @ [b]) = from_bytes_big bs * 256 + uint b"
  by (simp add: from_bytes_big_def)

lemma from_bytes_be_bytes: "from_bytes_big (be_bytes n x) = x mod 256 ^ n"
proof (induction n arbitrary: x)
  case 0
  show ?case by (simp add: from_bytes_big_def)
next
  case (Suc n)
  have low: "uint (word_of_int (x mod 256) :: byte) = x mod 256"
    by (simp add: uint_word_of_int take_bit_eq_mod)
  have "x mod (256 * 256 ^ n) = 256 * (x div 256 mod 256 ^ n) + x mod 256"
    by (rule zmod_zmult2_eq) simp
  then show ?case
    using Suc.IH [of "x div 256"] low
    by (simp add: from_bytes_big_snoc)
qed

lemma from_bytes_be_bytes_id:
  "0 \<le> x \<Longrightarrow> x < 256 ^ n \<Longrightarrow> from_bytes_big (be_bytes n x) = x"
  by (simp add: from_bytes_be_bytes)

lemma MSG_CHAR_TO_TYPE_eq:
  "MSG_CHAR_TO_TYPE b =
     (if b = 65 then Some ADD_ORDER else if b = 88 then Some CANCEL_ORDER
      else if b = 68 then Some DELETE_ORDER else if b = 69 then Some EXECUTED_ORDER
      else if b = 85 then Some REPLACE_ORDER else if b = 80 then Some TRADE
      else if b = 70 then Some ADD_ORDER_MPID else if b = 67 then Some EXECUTED_PRICE
      else if b = 66 then Some BROKEN_TRADE else None)"
  by (simp add: MSG_CHAR_TO_TYPE_def MSG_CHAR_TO_TYPE_items_def ord_simps)

lemma reset_eq: "reset s = ITCHParser_init"
  by (simp add: reset_def ITCHParser_init_def)

lemma MSG_LENGTHS_ge: "9 \<le> MSG_LENGTHS t"
  by (cases t) simp_all

subsection \<open>The decoder and one step of the assembler\<close>

lemma decode_message_cong:
  "self_msg_type s = self_msg_type s' \<Longrightarrow> self_buffer s = self_buffer s' \<Longrightarrow>
   decode_message s = decode_message s'"
  by (simp add: decode_message_def)

lemma decode_message_ok:
  assumes "self_msg_type s = Some t" and "MSG_LENGTHS t \<le> length (self_buffer s)"
  shows "\<exists>r. decode_message s = Inr r \<and> valid r \<and> msg_type r = Some (MessageType_value t)"
  using assms by (cases t) (simp_all add: decode_message_def getitem_def Let_def ParsedMessage_init_def)

lemma feed_byte_reject:
  "self_byte_index s = 0 \<Longrightarrow> MSG_CHAR_TO_TYPE b = None \<Longrightarrow>
   feed_byte s b = (ITCHParser_init, Inr (ParsedMessage_init\<lparr>valid := False\<rparr>))"
  by (simp add: feed_byte_def reset_eq)

lemma feed_byte_accept:
  "self_byte_index s = 0 \<Longrightarrow> MSG_CHAR_TO_TYPE b = Some t \<Longrightarrow>
   feed_byte s b =
     (s\<lparr>self_byte_index := 1, self_msg_type := Some t, self_msg_length := MSG_LENGTHS t,
        self_buffer := [b]\<rparr>, Inr (ParsedMessage_init\<lparr>valid := False\<rparr>))"
  using MSG_LENGTHS_ge [of t] by (simp add: feed_byte_def)

lemma feed_byte_append:
  "self_byte_index s \<noteq> 0 \<Longrightarrow> self_byte_index s + 1 < self_msg_length s \<Longrightarrow>
   feed_byte s b =
     (s\<lparr>self_byte_index := self_byte_index s + 1, self_buffer := self_buffer s @ [b]\<rparr>,
      Inr (ParsedMessage_init\<lparr>valid := False\<rparr>))"
  by (simp add: feed_byte_def)

lemma feed_byte_complete:
  "self_byte_index s \<noteq> 0 \<Longrightarrow> self_msg_length s \<le> self_byte_index s + 1 \<Longrightarrow>
   decode_message (s\<lparr>self_buffer := self_buffer s @ [b]\<rparr>) = Inr r \<Longrightarrow>
   feed_byte s b = (ITCHParser_init, Inr r)"
  by (simp add: feed_byte_def reset_eq
        decode_message_cong [of "s\<lparr>self_buffer := self_buffer s @ [b], self_byte_index := Suc (self_byte_index s)\<rparr>" "s\<lparr>self_buffer := self_buffer s @ [b]\<rparr>"])

subsection \<open>The invariant of the assembler\<close>

lemma init_fields:
  "self_byte_index ITCHParser_init = 0" "self_msg_type ITCHParser_init = None"
  "self_msg_length ITCHParser_init = 0" "self_buffer ITCHParser_init = []"
  "self_result ITCHParser_init = ParsedMessage_init"
  by (simp_all add: ITCHParser_init_def reset_def)

lemma wf_init: "wf ITCHParser_init"
  by (simp add: wf_def init_fields)

lemma decode_frame_ok:
  assumes "MSG_LENGTHS t \<le> length frame"
  shows "\<exists>r. decode_frame t frame = Inr r \<and> valid r \<and> msg_type r = Some (MessageType_value t)"
  using decode_message_ok [of "completed t frame" t] assms
  by (simp add: decode_frame_def completed_def)

lemma decode_message_frame:
  "self_msg_type s = Some t \<Longrightarrow> decode_message s = decode_frame t (self_buffer s)"
  unfolding decode_frame_def
  by (rule decode_message_cong) (simp_all add: completed_def)

text \<open>A call of \<^verbatim>\<open>feed_byte\<close> between calls never raises and keeps the invariant.\<close>

lemma wf_feed_byte:
  assumes "wf s"
  shows "\<exists>s' r. feed_byte s b = (s', Inr r) \<and> wf s' \<and> (valid r \<longrightarrow> s' = ITCHParser_init)"
proof (cases "self_msg_type s")
  case None
  with assms have s: "s = ITCHParser_init" by (simp add: wf_def)
  show ?thesis
  proof (cases "MSG_CHAR_TO_TYPE b")
    case None
    then show ?thesis
      using feed_byte_reject [of s b] s by (simp add: init_fields wf_init)
  next
    case (Some t)
    then show ?thesis
      using feed_byte_accept [of s b t] s MSG_LENGTHS_ge [of t]
      by (simp add: init_fields wf_def)
  qed
next
  case (Some t)
  with assms have inv: "self_msg_length s = MSG_LENGTHS t"
    "self_byte_index s = length (self_buffer s)" "0 < self_byte_index s"
    "self_byte_index s < self_msg_length s" "self_result s = ParsedMessage_init"
    by (auto simp: wf_def)
  show ?thesis
  proof (cases "self_byte_index s + 1 < self_msg_length s")
    case True
    then show ?thesis
      using feed_byte_append [of s b] inv Some by (simp add: wf_def)
  next
    case False
    obtain r where r: "decode_message (s\<lparr>self_buffer := self_buffer s @ [b]\<rparr>) = Inr r"
      using decode_message_ok [of "s\<lparr>self_buffer := self_buffer s @ [b]\<rparr>" t] Some inv False
      by auto
    show ?thesis
      using feed_byte_complete [OF _ _ r] inv False by (simp add: wf_init)
  qed
qed

text \<open>Feeding the rest of a frame that has been begun.\<close>

lemma feed_rest_of_frame:
  assumes "self_msg_type s = Some t" and "self_msg_length s = MSG_LENGTHS t"
    and "self_byte_index s = length (self_buffer s)" and "0 < self_byte_index s"
    and "length (self_buffer s) + length bs = MSG_LENGTHS t" and "bs \<noteq> []"
    and "decode_frame t (self_buffer s @ bs) = Inr r" and "valid r"
  shows "feed_bytes s bs =
           (ITCHParser_init, Inr (replicate (length bs - 1) (ParsedMessage_init\<lparr>valid := False\<rparr>) @ [r]))"
    and "parse_loop s (bs @ rest) = (ITCHParser_init, Inr r)"
  using assms
proof (induction bs arbitrary: s)
  case Nil
  { case 1 then show ?case by simp }
  { case 2 then show ?case by simp }
next
  case (Cons b bs)
  { case 1
    show ?case
    proof (cases "bs = []")
      case True
      have "decode_message (s\<lparr>self_buffer := self_buffer s @ [b]\<rparr>) = Inr r"
        using 1 True by (simp add: decode_message_frame)
      then have "feed_byte s b = (ITCHParser_init, Inr r)"
        using 1 True by (intro feed_byte_complete) simp_all
      then show ?thesis using True by simp
    next
      case False
      let ?s' = "s\<lparr>self_byte_index := self_byte_index s + 1, self_buffer := self_buffer s @ [b]\<rparr>"
      have step: "feed_byte s b = (?s', Inr (ParsedMessage_init\<lparr>valid := False\<rparr>))"
        using 1 False by (intro feed_byte_append) (cases bs; simp)+
      have "feed_bytes ?s' bs =
           (ITCHParser_init, Inr (replicate (length bs - 1) (ParsedMessage_init\<lparr>valid := False\<rparr>) @ [r]))"
        using 1 False by (intro Cons.IH(1)) simp_all
      then show ?thesis using step False by (cases bs) simp_all
    qed }
  { case 2
    show ?case
    proof (cases "bs = []")
      case True
      have "decode_message (s\<lparr>self_buffer := self_buffer s @ [b]\<rparr>) = Inr r"
        using 2 True by (simp add: decode_message_frame)
      then have "feed_byte s b = (ITCHParser_init, Inr r)"
        using 2 True by (intro feed_byte_complete) simp_all
      then show ?thesis using True 2 by simp
    next
      case False
      let ?s' = "s\<lparr>self_byte_index := self_byte_index s + 1, self_buffer := self_buffer s @ [b]\<rparr>"
      have step: "feed_byte s b = (?s', Inr (ParsedMessage_init\<lparr>valid := False\<rparr>))"
        using 2 False by (intro feed_byte_append) (cases bs; simp)+
      have "parse_loop ?s' (bs @ rest) = (ITCHParser_init, Inr r)"
        using 2 False by (intro Cons.IH(2)) simp_all
      then show ?thesis using step by simp
    qed }
qed

text \<open>Feeding a whole frame to an idle parser.\<close>

lemma feed_frame:
  assumes "self_byte_index s = 0" and "MSG_CHAR_TO_TYPE b = Some t"
    and "length (b # bs) = MSG_LENGTHS t"
  shows "\<exists>r. decode_frame t (b # bs) = Inr r \<and> valid r \<and>
           msg_type r = Some (MessageType_value t) \<and>
           feed_bytes s (b # bs) =
             (ITCHParser_init, Inr (replicate (length bs) (ParsedMessage_init\<lparr>valid := False\<rparr>) @ [r])) \<and>
           (\<forall>rest. parse_loop s (b # bs @ rest) = (ITCHParser_init, Inr r))"
proof -
  obtain r where r: "decode_frame t (b # bs) = Inr r" "valid r"
    "msg_type r = Some (MessageType_value t)"
    using decode_frame_ok [of t "b # bs"] assms(3) by auto
  let ?s' = "s\<lparr>self_byte_index := 1, self_msg_type := Some t, self_msg_length := MSG_LENGTHS t,
        self_buffer := [b]\<rparr>"
  have step: "feed_byte s b = (?s', Inr (ParsedMessage_init\<lparr>valid := False\<rparr>))"
    using assms by (intro feed_byte_accept)
  have ne: "bs \<noteq> []"
    using assms(3) MSG_LENGTHS_ge [of t] by auto
  have rest: "feed_bytes ?s' bs =
      (ITCHParser_init, Inr (replicate (length bs - 1) (ParsedMessage_init\<lparr>valid := False\<rparr>) @ [r]))"
    "\<And>rest. parse_loop ?s' (bs @ rest) = (ITCHParser_init, Inr r)"
    using assms(3) ne r feed_rest_of_frame [of ?s' t bs r] by simp_all
  have rep: "ParsedMessage_init\<lparr>valid := False\<rparr> # replicate (length bs - 1) (ParsedMessage_init\<lparr>valid := False\<rparr>)
      = replicate (length bs) (ParsedMessage_init\<lparr>valid := False\<rparr>)"
    using ne by (cases bs) simp_all
  have "feed_bytes s (b # bs) =
      (ITCHParser_init, Inr (replicate (length bs) (ParsedMessage_init\<lparr>valid := False\<rparr>) @ [r]))"
    using step rest(1) rep by simp
  moreover have "\<forall>rest. parse_loop s (b # bs @ rest) = (ITCHParser_init, Inr r)"
    using step rest(2) by simp
  ultimately show ?thesis using r by blast
qed

lemma parse_message_frame:
  assumes "MSG_CHAR_TO_TYPE b = Some t" and "length (b # bs) = MSG_LENGTHS t"
    and "decode_frame t (b # bs) = Inr r"
  shows "parse_message p (b # bs) = (ITCHParser_init, Inr r)"
proof -
  obtain r' where "decode_frame t (b # bs) = Inr r'"
    and "\<forall>rest. parse_loop ITCHParser_init (b # bs @ rest) = (ITCHParser_init, Inr r')"
    using feed_frame [of ITCHParser_init b t bs] assms(1,2) by (auto simp: init_fields)
  then have "parse_loop ITCHParser_init (b # bs @ []) = (ITCHParser_init, Inr r)"
    using assms(3) by (metis sum.inject(2))
  then show ?thesis by (simp add: parse_message_def reset_eq)
qed

subsection \<open>The type registry\<close>

lemma MSG_CHAR_TO_TYPE_inj:
  "MSG_CHAR_TO_TYPE b1 = Some k \<Longrightarrow> MSG_CHAR_TO_TYPE b2 = Some k \<Longrightarrow> b1 = b2"
  by (simp add: MSG_CHAR_TO_TYPE_eq split: if_splits)

lemma MSG_CHAR_TO_TYPE_surj: "\<exists>b. MSG_CHAR_TO_TYPE b = Some k"
proof (cases k)
  case ADD_ORDER then show ?thesis by (intro exI [of _ 65]) (simp add: MSG_CHAR_TO_TYPE_eq)
next
  case CANCEL_ORDER then show ?thesis by (intro exI [of _ 88]) (simp add: MSG_CHAR_TO_TYPE_eq)
next
  case DELETE_ORDER then show ?thesis by (intro exI [of _ 68]) (simp add: MSG_CHAR_TO_TYPE_eq)
next
  case EXECUTED_ORDER then show ?thesis by (intro exI [of _ 69]) (simp add: MSG_CHAR_TO_TYPE_eq)
next
  case REPLACE_ORDER then show ?thesis by (intro exI [of _ 85]) (simp add: MSG_CHAR_TO_TYPE_eq)
next
  case TRADE then show ?thesis by (intro exI [of _ 80]) (simp add: MSG_CHAR_TO_TYPE_eq)
next
  case ADD_ORDER_MPID then show ?thesis by (intro exI [of _ 70]) (simp add: MSG_CHAR_TO_TYPE_eq)
next
  case EXECUTED_PRICE then show ?thesis by (intro exI [of _ 67]) (simp add: MSG_CHAR_TO_TYPE_eq)
next
  case BROKEN_TRADE then show ?thesis by (intro exI [of _ 66]) (simp add: MSG_CHAR_TO_TYPE_eq)
qed

lemma MSG_LENGTHS_shared:
  "k1 \<noteq> k2 \<Longrightarrow>
   (MSG_LENGTHS k1 = MSG_LENGTHS k2) =
     ({k1, k2} = {ADD_ORDER, EXECUTED_PRICE} \<or> {k1, k2} = {TRADE, ADD_ORDER_MPID})"
  by (cases k1; cases k2) (simp_all add: doubleton_eq_iff)

lemma config_MSG_LENGTHS_agree:
  "map (map_of config_MSG_LENGTHS)
     [''add'', ''cancel'', ''delete'', ''executed'', ''replace'', ''trade'', ''add_mpid'',
      ''executed_price'', ''broken_trade'']
   = map (\<lambda>k. Some (MSG_LENGTHS k))
     [ADD_ORDER, CANCEL_ORDER, DELETE_ORDER, EXECUTED_ORDER, REPLACE_ORDER, TRADE,
      ADD_ORDER_MPID, EXECUTED_PRICE, BROKEN_TRADE]"
  by (simp add: config_MSG_LENGTHS_def)

lemma MSG_CHAR_TO_TYPE_dom:
  "(MSG_CHAR_TO_TYPE b \<noteq> None) =
     (b \<in> {ord CHR ''A'', ord CHR ''X'', ord CHR ''D'', ord CHR ''E'', ord CHR ''U'',
           ord CHR ''P'', ord CHR ''F'', ord CHR ''C'', ord CHR ''B''})"
  by (simp add: MSG_CHAR_TO_TYPE_eq ord_simps)


subsection \<open>Feeding any bytes\<close>

lemma wf_feed_bytes:
  assumes "wf s"
  shows "\<exists>s' rs. feed_bytes s data = (s', Inr rs) \<and> wf s' \<and> length rs = length data"
  using assms
proof (induction data arbitrary: s)
  case Nil
  then show ?case by simp
next
  case (Cons b data)
  obtain s1 r where step: "feed_byte s b = (s1, Inr r)" "wf s1"
    using wf_feed_byte [OF Cons.prems, of b] by blast
  obtain s2 rs where rest: "feed_bytes s1 data = (s2, Inr rs)" "wf s2" "length rs = length data"
    using Cons.IH [OF step(2)] by blast
  show ?case using step rest by simp
qed

text \<open>A call that returns a valid result has reset the parser.\<close>

lemma feed_byte_valid_resets:
  assumes "feed_byte s b = (s', Inr r)" and "valid r"
  shows "s' = ITCHParser_init"
proof (cases "self_byte_index s = 0")
  case True
  show ?thesis
  proof (cases "MSG_CHAR_TO_TYPE b")
    case None
    then show ?thesis using feed_byte_reject [OF True None] assms by simp
  next
    case (Some t)
    then show ?thesis using feed_byte_accept [OF True Some] assms by simp
  qed
next
  case False
  show ?thesis
  proof (cases "self_byte_index s + 1 < self_msg_length s")
    case True
    then show ?thesis using feed_byte_append [OF False True, of b] assms by simp
  next
    case F: False
    then show ?thesis
      using assms False
      by (auto simp: feed_byte_def reset_eq Let_def split: sum.splits)
  qed
qed

lemma reachable_complete_iff:
  assumes "wf s"
  shows "(\<exists>s' r. feed_byte s b = (s', Inr r) \<and> valid r) =
         (length (self_buffer s) + 1 = self_msg_length s)"
proof (cases "self_msg_type s")
  case None
  with assms have s: "s = ITCHParser_init" by (simp add: wf_def)
  show ?thesis
  proof (cases "MSG_CHAR_TO_TYPE b")
    case None
    then show ?thesis using feed_byte_reject [of s b] s by (simp add: init_fields)
  next
    case (Some t)
    then show ?thesis using feed_byte_accept [of s b t] s by (simp add: init_fields)
  qed
next
  case (Some t)
  with assms have inv: "self_msg_length s = MSG_LENGTHS t"
    "self_byte_index s = length (self_buffer s)" "0 < self_byte_index s"
    "self_byte_index s < self_msg_length s"
    by (auto simp: wf_def)
  show ?thesis
  proof (cases "self_byte_index s + 1 < self_msg_length s")
    case True
    then show ?thesis
      using feed_byte_append [of s b] inv by simp
  next
    case False
    obtain r where r: "decode_message (s\<lparr>self_buffer := self_buffer s @ [b]\<rparr>) = Inr r" "valid r"
      using decode_message_ok [of "s\<lparr>self_buffer := self_buffer s @ [b]\<rparr>" t] Some inv False
      by auto
    have "feed_byte s b = (ITCHParser_init, Inr r)"
      using feed_byte_complete [OF _ _ r(1)] inv False by simp
    then show ?thesis using r(2) inv False by simp
  qed
qed

text \<open>The side byte.\<close>

lemma decode_message_side:
  assumes "t = ADD_ORDER \<or> t = TRADE \<or> t = ADD_ORDER_MPID"
    and "self_msg_type s = Some t" and "length (self_buffer s) = MSG_LENGTHS t"
  shows "\<exists>r. decode_message s = Inr r \<and> valid r \<and>
           side r = (if self_buffer s ! 15 = ord CHR ''S'' then 1 else 0)"
  using assms
  by (auto simp: decode_message_def getitem_def Let_def ParsedMessage_init_def)


subsection \<open>The loop of \<^verbatim>\<open>parse_message\<close>\<close>

lemma parse_loop_find:
  assumes "wf s"
  shows "\<exists>s' rs. feed_bytes s data = (s', Inr rs) \<and> length rs = length data \<and>
           snd (parse_loop s data) =
             Inr (case find valid rs of Some r \<Rightarrow> r | None \<Rightarrow> ParsedMessage_init\<lparr>valid := False\<rparr>)"
  using assms
proof (induction data arbitrary: s)
  case Nil
  then show ?case by simp
next
  case (Cons b data)
  obtain s1 r where step: "feed_byte s b = (s1, Inr r)" "wf s1"
    using wf_feed_byte [OF Cons.prems, of b] by blast
  obtain s2 rs where rest: "feed_bytes s1 data = (s2, Inr rs)" "length rs = length data"
    "snd (parse_loop s1 data) =
       Inr (case find valid rs of Some r \<Rightarrow> r | None \<Rightarrow> ParsedMessage_init\<lparr>valid := False\<rparr>)"
    using Cons.IH [OF step(2)] by blast
  show ?case using step rest by simp
qed

lemma parse_loop_prefix:
  assumes "feed_bytes s pre = (s1, Inr rs)" and "list_all (\<lambda>r. \<not> valid r) rs"
  shows "parse_loop s (pre @ tl_bytes) = parse_loop s1 tl_bytes"
  using assms
proof (induction pre arbitrary: s rs)
  case Nil
  then show ?case by simp
next
  case (Cons b pre)
  obtain sa ra where fb: "feed_byte s b = (sa, ra)" by (cases "feed_byte s b")
  show ?case
  proof (cases ra)
    case (Inl e)
    then show ?thesis using Cons.prems fb by simp
  next
    case (Inr r)
    obtain sb rb where fbs: "feed_bytes sa pre = (sb, rb)" by (cases "feed_bytes sa pre")
    show ?thesis
    proof (cases rb)
      case (Inl e)
      then show ?thesis using Cons.prems fb Inr fbs by simp
    next
      case rs': (Inr rs')
      have eq: "sb = s1" "rs = r # rs'"
        using Cons.prems(1) fb Inr fbs rs' by simp_all
      have "parse_loop sa (pre @ tl_bytes) = parse_loop s1 tl_bytes"
        using Cons.IH [of sa rs'] fbs rs' eq Cons.prems(2) by simp
      then show ?thesis using fb Inr eq Cons.prems(2) by simp
    qed
  qed
qed

subsection \<open>The generators\<close>

lemma to_bytes_big_ok:
  "0 \<le> x \<Longrightarrow> x < 256 ^ n \<Longrightarrow> to_bytes_big x n = Inr (be_bytes n x)"
  by (simp add: to_bytes_big_def)

lemma min_length_ljust: "min (length (ljust s w)) w = w"
  by (simp add: ljust_def)

lemma length_take_ljust: "length (take w (ljust s w)) = w"
  by (simp add: ljust_def)

lemma encode_ascii_field:
  assumes "is_ascii s"
  shows "encode_ascii (take w (ljust s w)) = Inr (map of_char (take w (ljust s w)))"
proof -
  have "is_ascii (ljust s w)"
    using assms by (auto simp: is_ascii_def ljust_def list_all_iff)
  then have "is_ascii (take w (ljust s w))"
    by (auto simp: is_ascii_def list_all_iff dest: in_set_takeD)
  then show ?thesis by (simp add: encode_ascii_def)
qed

lemma parse_generated:
  assumes "g = Inr (b # bs)" and "MSG_CHAR_TO_TYPE b = Some t"
    and "length (b # bs) = MSG_LENGTHS t" and "decode_frame t (b # bs) = Inr r"
  shows "\<exists>frame. g = Inr frame \<and> length frame = MSG_LENGTHS t \<and>
           snd (parse_message p frame) = Inr r"
  using assms parse_message_frame [of b t bs r p] by simp

lemma delete_order_frame:
  assumes "0 \<le> oref" "oref < 2 ^ 64"
  shows "gen_delete_order oref =
    Inr (ord CHR ''D'' # be_bytes 8 oref)"
  using assms
  by (simp add: gen_delete_order_def encode_ascii_field to_bytes_big_ok)

lemma delete_order_decode:
  assumes "0 \<le> oref" "oref < 2 ^ 64"
  shows "decode_frame DELETE_ORDER (ord CHR ''D'' # be_bytes 8 oref) =
    Inr \<lparr>valid = True, msg_type = Some (MessageType_value DELETE_ORDER), order_ref = oref,
             side = 0, shares = 0, price = 0, new_order_ref = 0,
             timestamp = 0, misc_data = 0\<rparr>"
  using assms
  by (simp add: decode_frame_def completed_def decode_message_def py_slice_def getitem_def
        length_be_bytes min_length_ljust from_bytes_be_bytes_id nth_append
        ParsedMessage_init_def bytes_zero_def ord_simps)

lemma delete_order_parse:
  assumes "0 \<le> oref" "oref < 2 ^ 64"
  shows "\<exists>frame. gen_delete_order oref = Inr frame \<and> length frame = MSG_LENGTHS DELETE_ORDER \<and>
           snd (parse_message p frame) =
             Inr \<lparr>valid = True, msg_type = Some (MessageType_value DELETE_ORDER), order_ref = oref,
             side = 0, shares = 0, price = 0, new_order_ref = 0,
             timestamp = 0, misc_data = 0\<rparr>"
proof (rule parse_generated)
  show "gen_delete_order oref =
    Inr (ord CHR ''D'' # be_bytes 8 oref)"
    using assms by (intro delete_order_frame)
  show "MSG_CHAR_TO_TYPE (ord CHR ''D'') = Some DELETE_ORDER"
    by (simp add: MSG_CHAR_TO_TYPE_eq ord_simps)
  show "length (ord CHR ''D'' # be_bytes 8 oref) = MSG_LENGTHS DELETE_ORDER"
    by (simp add: length_be_bytes min_length_ljust bytes_zero_def)
  show "decode_frame DELETE_ORDER (ord CHR ''D'' # be_bytes 8 oref) =
    Inr \<lparr>valid = True, msg_type = Some (MessageType_value DELETE_ORDER), order_ref = oref,
             side = 0, shares = 0, price = 0, new_order_ref = 0,
             timestamp = 0, misc_data = 0\<rparr>"
    using assms by (intro delete_order_decode)
qed

lemma add_order_frame:
  assumes "0 \<le> ts" "ts < 2 ^ 48"
    "0 \<le> oref" "oref < 2 ^ 64"
    "0 \<le> sh" "sh < 2 ^ 32"
    "0 \<le> pr" "pr < 2 ^ 32"
    "is_ascii stock"
  shows "gen_add_order ts oref sd sh stock pr =
    Inr (ord CHR ''A'' # be_bytes 6 ts @ be_bytes 8 oref @ (if sd = ''S'' then ord CHR ''S'' else ord CHR ''B'') # be_bytes 4 sh @ map of_char (take 8 (ljust stock 8)) @ be_bytes 4 pr @ bytes_zero 4)"
  using assms
  by (simp add: gen_add_order_def encode_ascii_field to_bytes_big_ok)

lemma add_order_decode:
  assumes "0 \<le> ts" "ts < 2 ^ 48"
    "0 \<le> oref" "oref < 2 ^ 64"
    "0 \<le> sh" "sh < 2 ^ 32"
    "0 \<le> pr" "pr < 2 ^ 32"
  shows "decode_frame ADD_ORDER (ord CHR ''A'' # be_bytes 6 ts @ be_bytes 8 oref @ (if sd = ''S'' then ord CHR ''S'' else ord CHR ''B'') # be_bytes 4 sh @ map of_char (take 8 (ljust stock 8)) @ be_bytes 4 pr @ bytes_zero 4) =
    Inr \<lparr>valid = True, msg_type = Some (MessageType_value ADD_ORDER), order_ref = oref,
             side = (if sd = ''S'' then 1 else 0), shares = sh, price = pr, new_order_ref = 0,
             timestamp = ts, misc_data = from_bytes_big (map of_char (take 8 (ljust stock 8)))\<rparr>"
  using assms
  by (simp add: decode_frame_def completed_def decode_message_def py_slice_def getitem_def
        length_be_bytes min_length_ljust from_bytes_be_bytes_id nth_append
        ParsedMessage_init_def bytes_zero_def ord_simps)

lemma add_order_parse:
  assumes "0 \<le> ts" "ts < 2 ^ 48"
    "0 \<le> oref" "oref < 2 ^ 64"
    "0 \<le> sh" "sh < 2 ^ 32"
    "0 \<le> pr" "pr < 2 ^ 32"
    "is_ascii stock"
  shows "\<exists>frame. gen_add_order ts oref sd sh stock pr = Inr frame \<and> length frame = MSG_LENGTHS ADD_ORDER \<and>
           snd (parse_message p frame) =
             Inr \<lparr>valid = True, msg_type = Some (MessageType_value ADD_ORDER), order_ref = oref,
             side = (if sd = ''S'' then 1 else 0), shares = sh, price = pr, new_order_ref = 0,
             timestamp = ts, misc_data = from_bytes_big (map of_char (take 8 (ljust stock 8)))\<rparr>"
proof (rule parse_generated)
  show "gen_add_order ts oref sd sh stock pr =
    Inr (ord CHR ''A'' # be_bytes 6 ts @ be_bytes 8 oref @ (if sd = ''S'' then ord CHR ''S'' else ord CHR ''B'') # be_bytes 4 sh @ map of_char (take 8 (ljust stock 8)) @ be_bytes 4 pr @ bytes_zero 4)"
    using assms by (intro add_order_frame)
  show "MSG_CHAR_TO_TYPE (ord CHR ''A'') = Some ADD_ORDER"
    by (simp add: MSG_CHAR_TO_TYPE_eq ord_simps)
  show "length (ord CHR ''A'' # be_bytes 6 ts @ be_bytes 8 oref @ (if sd = ''S'' then ord CHR ''S'' else ord CHR ''B'') # be_bytes 4 sh @ map of_char (take 8 (ljust stock 8)) @ be_bytes 4 pr @ bytes_zero 4) = MSG_LENGTHS ADD_ORDER"
    by (simp add: length_be_bytes min_length_ljust bytes_zero_def)
  show "decode_frame ADD_ORDER (ord CHR ''A'' # be_bytes 6 ts @ be_bytes 8 oref @ (if sd = ''S'' then ord CHR ''S'' else ord CHR ''B'') # be_bytes 4 sh @ map of_char (take 8 (ljust stock 8)) @ be_bytes 4 pr @ bytes_zero 4) =
    Inr \<lparr>valid = True, msg_type = Some (MessageType_value ADD_ORDER), order_ref = oref,
             side = (if sd = ''S'' then 1 else 0), shares = sh, price = pr, new_order_ref = 0,
             timestamp = ts, misc_data = from_bytes_big (map of_char (take 8 (ljust stock 8)))\<rparr>"
    using assms by (intro add_order_decode)
qed

lemma cancel_order_frame:
  assumes "0 \<le> ts" "ts < 2 ^ 48"
    "0 \<le> oref" "oref < 2 ^ 64"
    "0 \<le> sh" "sh < 2 ^ 32"
  shows "gen_cancel_order ts oref sh =
    Inr (ord CHR ''X'' # be_bytes 6 ts @ be_bytes 8 oref @ be_bytes 4 sh @ bytes_zero 4)"
  using assms
  by (simp add: gen_cancel_order_def encode_ascii_field to_bytes_big_ok)

lemma cancel_order_decode:
  assumes "0 \<le> ts" "ts < 2 ^ 48"
    "0 \<le> oref" "oref < 2 ^ 64"
    "0 \<le> sh" "sh < 2 ^ 32"
  shows "decode_frame CANCEL_ORDER (ord CHR ''X'' # be_bytes 6 ts @ be_bytes 8 oref @ be_bytes 4 sh @ bytes_zero 4) =
    Inr \<lparr>valid = True, msg_type = Some (MessageType_value CANCEL_ORDER), order_ref = oref,
             side = 0, shares = sh, price = 0, new_order_ref = 0,
             timestamp = ts, misc_data = 0\<rparr>"
  using assms
  by (simp add: decode_frame_def completed_def decode_message_def py_slice_def getitem_def
        length_be_bytes min_length_ljust from_bytes_be_bytes_id nth_append
        ParsedMessage_init_def bytes_zero_def ord_simps)

lemma cancel_order_parse:
  assumes "0 \<le> ts" "ts < 2 ^ 48"
    "0 \<le> oref" "oref < 2 ^ 64"
    "0 \<le> sh" "sh < 2 ^ 32"
  shows "\<exists>frame. gen_cancel_order ts oref sh = Inr frame \<and> length frame = MSG_LENGTHS CANCEL_ORDER \<and>
           snd (parse_message p frame) =
             Inr \<lparr>valid = True, msg_type = Some (MessageType_value CANCEL_ORDER), order_ref = oref,
             side = 0, shares = sh, price = 0, new_order_ref = 0,
             timestamp = ts, misc_data = 0\<rparr>"
proof (rule parse_generated)
  show "gen_cancel_order ts oref sh =
    Inr (ord CHR ''X'' # be_bytes 6 ts @ be_bytes 8 oref @ be_bytes 4 sh @ bytes_zero 4)"
    using assms by (intro cancel_order_frame)
  show "MSG_CHAR_TO_TYPE (ord CHR ''X'') = Some CANCEL_ORDER"
    by (simp add: MSG_CHAR_TO_TYPE_eq ord_simps)
  show "length (ord CHR ''X'' # be_bytes 6 ts @ be_bytes 8 oref @ be_bytes 4 sh @ bytes_zero 4) = MSG_LENGTHS CANCEL_ORDER"
    by (simp add: length_be_bytes min_length_ljust bytes_zero_def)
  show "decode_frame CANCEL_ORDER (ord CHR ''X'' # be_bytes 6 ts @ be_bytes 8 oref @ be_bytes 4 sh @ bytes_zero 4) =
    Inr \<lparr>valid = True, msg_type = Some (MessageType_value CANCEL_ORDER), order_ref = oref,
             side = 0, shares = sh, price = 0, new_order_ref = 0,
             timestamp = ts, misc_data = 0\<rparr>"
    using assms by (intro cancel_order_decode)
qed

lemma executed_order_frame:
  assumes "0 \<le> ts" "ts < 2 ^ 48"
    "0 \<le> oref" "oref < 2 ^ 64"
    "0 \<le> sh" "sh < 2 ^ 32"
    "0 \<le> mid" "mid < 2 ^ 64"
  shows "gen_executed_order ts oref sh mid =
    Inr (ord CHR ''E'' # be_bytes 6 ts @ be_bytes 8 oref @ be_bytes 4 sh @ be_bytes 8 mid @ bytes_zero 3)"
  using assms
  by (simp add: gen_executed_order_def encode_ascii_field to_bytes_big_ok)

lemma executed_order_decode:
  assumes "0 \<le> ts" "ts < 2 ^ 48"
    "0 \<le> oref" "oref < 2 ^ 64"
    "0 \<le> sh" "sh < 2 ^ 32"
    "0 \<le> mid" "mid < 2 ^ 64"
  shows "decode_frame EXECUTED_ORDER (ord CHR ''E'' # be_bytes 6 ts @ be_bytes 8 oref @ be_bytes 4 sh @ be_bytes 8 mid @ bytes_zero 3) =
    Inr \<lparr>valid = True, msg_type = Some (MessageType_value EXECUTED_ORDER), order_ref = oref,
             side = 0, shares = sh, price = 0, new_order_ref = 0,
             timestamp = ts, misc_data = mid\<rparr>"
  using assms
  by (simp add: decode_frame_def completed_def decode_message_def py_slice_def getitem_def
        length_be_bytes min_length_ljust from_bytes_be_bytes_id nth_append
        ParsedMessage_init_def bytes_zero_def ord_simps)

lemma executed_order_parse:
  assumes "0 \<le> ts" "ts < 2 ^ 48"
    "0 \<le> oref" "oref < 2 ^ 64"
    "0 \<le> sh" "sh < 2 ^ 32"
    "0 \<le> mid" "mid < 2 ^ 64"
  shows "\<exists>frame. gen_executed_order ts oref sh mid = Inr frame \<and> length frame = MSG_LENGTHS EXECUTED_ORDER \<and>
           snd (parse_message p frame) =
             Inr \<lparr>valid = True, msg_type = Some (MessageType_value EXECUTED_ORDER), order_ref = oref,
             side = 0, shares = sh, price = 0, new_order_ref = 0,
             timestamp = ts, misc_data = mid\<rparr>"
proof (rule parse_generated)
  show "gen_executed_order ts oref sh mid =
    Inr (ord CHR ''E'' # be_bytes 6 ts @ be_bytes 8 oref @ be_bytes 4 sh @ be_bytes 8 mid @ bytes_zero 3)"
    using assms by (intro executed_order_frame)
  show "MSG_CHAR_TO_TYPE (ord CHR ''E'') = Some EXECUTED_ORDER"
    by (simp add: MSG_CHAR_TO_TYPE_eq ord_simps)
  show "length (ord CHR ''E'' # be_bytes 6 ts @ be_bytes 8 oref @ be_bytes 4 sh @ be_bytes 8 mid @ bytes_zero 3) = MSG_LENGTHS EXECUTED_ORDER"
    by (simp add: length_be_bytes min_length_ljust bytes_zero_def)
  show "decode_frame EXECUTED_ORDER (ord CHR ''E'' # be_bytes 6 ts @ be_bytes 8 oref @ be_bytes 4 sh @ be_bytes 8 mid @ bytes_zero 3) =
    Inr \<lparr>valid = True, msg_type = Some (MessageType_value EXECUTED_ORDER), order_ref = oref,
             side = 0, shares = sh, price = 0, new_order_ref = 0,
             timestamp = ts, misc_data = mid\<rparr>"
    using assms by (intro executed_order_decode)
qed

lemma replace_order_frame:
  assumes "0 \<le> ts" "ts < 2 ^ 48"
    "0 \<le> oref" "oref < 2 ^ 64"
    "0 \<le> noref" "noref < 2 ^ 64"
    "0 \<le> sh" "sh < 2 ^ 32"
  shows "gen_replace_order ts oref noref sh =
    Inr (ord CHR ''U'' # be_bytes 6 ts @ be_bytes 8 oref @ be_bytes 8 noref @ be_bytes 4 sh)"
  using assms
  by (simp add: gen_replace_order_def encode_ascii_field to_bytes_big_ok)

lemma replace_order_decode:
  assumes "0 \<le> ts" "ts < 2 ^ 48"
    "0 \<le> oref" "oref < 2 ^ 64"
    "0 \<le> noref" "noref < 2 ^ 64"
    "0 \<le> sh" "sh < 2 ^ 32"
  shows "decode_frame REPLACE_ORDER (ord CHR ''U'' # be_bytes 6 ts @ be_bytes 8 oref @ be_bytes 8 noref @ be_bytes 4 sh) =
    Inr \<lparr>valid = True, msg_type = Some (MessageType_value REPLACE_ORDER), order_ref = oref,
             side = 0, shares = sh, price = 0, new_order_ref = noref,
             timestamp = ts, misc_data = 0\<rparr>"
  using assms
  by (simp add: decode_frame_def completed_def decode_message_def py_slice_def getitem_def
        length_be_bytes min_length_ljust from_bytes_be_bytes_id nth_append
        ParsedMessage_init_def bytes_zero_def ord_simps)

lemma replace_order_parse:
  assumes "0 \<le> ts" "ts < 2 ^ 48"
    "0 \<le> oref" "oref < 2 ^ 64"
    "0 \<le> noref" "noref < 2 ^ 64"
    "0 \<le> sh" "sh < 2 ^ 32"
  shows "\<exists>frame. gen_replace_order ts oref noref sh = Inr frame \<and> length frame = MSG_LENGTHS REPLACE_ORDER \<and>
           snd (parse_message p frame) =
             Inr \<lparr>valid = True, msg_type = Some (MessageType_value REPLACE_ORDER), order_ref = oref,
             side = 0, shares = sh, price = 0, new_order_ref = noref,
             timestamp = ts, misc_data = 0\<rparr>"
proof (rule parse_generated)
  show "gen_replace_order ts oref noref sh =
    Inr (ord CHR ''U'' # be_bytes 6 ts @ be_bytes 8 oref @ be_bytes 8 noref @ be_bytes 4 sh)"
    using assms by (intro replace_order_frame)
  show "MSG_CHAR_TO_TYPE (ord CHR ''U'') = Some REPLACE_ORDER"
    by (simp add: MSG_CHAR_TO_TYPE_eq ord_simps)
  show "length (ord CHR ''U'' # be_bytes 6 ts @ be_bytes 8 oref @ be_bytes 8 noref @ be_bytes 4 sh) = MSG_LENGTHS REPLACE_ORDER"
    by (simp add: length_be_bytes min_length_ljust bytes_zero_def)
  show "decode_frame REPLACE_ORDER (ord CHR ''U'' # be_bytes 6 ts @ be_bytes 8 oref @ be_bytes 8 noref @ be_bytes 4 sh) =
    Inr \<lparr>valid = True, msg_type = Some (MessageType_value REPLACE_ORDER), order_ref = oref,
             side = 0, shares = sh, price = 0, new_order_ref = noref,
             timestamp = ts, misc_data = 0\<rparr>"
    using assms by (intro replace_order_decode)
qed

lemma trade_frame:
  assumes "0 \<le> ts" "ts < 2 ^ 48"
    "0 \<le> oref" "oref < 2 ^ 64"
    "0 \<le> sh" "sh < 2 ^ 32"
    "0 \<le> pr" "pr < 2 ^ 32"
    "0 \<le> mid" "mid < 2 ^ 64"
    "is_ascii stock"
  shows "gen_trade ts oref sd sh stock pr mid =
    Inr (ord CHR ''P'' # be_bytes 6 ts @ be_bytes 8 oref @ (if sd = ''S'' then ord CHR ''S'' else ord CHR ''B'') # be_bytes 4 sh @ map of_char (take 8 (ljust stock 8)) @ be_bytes 4 pr @ be_bytes 8 mid)"
  using assms
  by (simp add: gen_trade_def encode_ascii_field to_bytes_big_ok)

lemma trade_decode:
  assumes "0 \<le> ts" "ts < 2 ^ 48"
    "0 \<le> oref" "oref < 2 ^ 64"
    "0 \<le> sh" "sh < 2 ^ 32"
    "0 \<le> pr" "pr < 2 ^ 32"
    "0 \<le> mid" "mid < 2 ^ 64"
  shows "decode_frame TRADE (ord CHR ''P'' # be_bytes 6 ts @ be_bytes 8 oref @ (if sd = ''S'' then ord CHR ''S'' else ord CHR ''B'') # be_bytes 4 sh @ map of_char (take 8 (ljust stock 8)) @ be_bytes 4 pr @ be_bytes 8 mid) =
    Inr \<lparr>valid = True, msg_type = Some (MessageType_value TRADE), order_ref = oref,
             side = (if sd = ''S'' then 1 else 0), shares = sh, price = pr, new_order_ref = 0,
             timestamp = ts, misc_data = mid\<rparr>"
  using assms
  by (simp add: decode_frame_def completed_def decode_message_def py_slice_def getitem_def
        length_be_bytes min_length_ljust from_bytes_be_bytes_id nth_append
        ParsedMessage_init_def bytes_zero_def ord_simps)

lemma trade_parse:
  assumes "0 \<le> ts" "ts < 2 ^ 48"
    "0 \<le> oref" "oref < 2 ^ 64"
    "0 \<le> sh" "sh < 2 ^ 32"
    "0 \<le> pr" "pr < 2 ^ 32"
    "0 \<le> mid" "mid < 2 ^ 64"
    "is_ascii stock"
  shows "\<exists>frame. gen_trade ts oref sd sh stock pr mid = Inr frame \<and> length frame = MSG_LENGTHS TRADE \<and>
           snd (parse_message p frame) =
             Inr \<lparr>valid = True, msg_type = Some (MessageType_value TRADE), order_ref = oref,
             side = (if sd = ''S'' then 1 else 0), shares = sh, price = pr, new_order_ref = 0,
             timestamp = ts, misc_data = mid\<rparr>"
proof (rule parse_generated)
  show "gen_trade ts oref sd sh stock pr mid =
    Inr (ord CHR ''P'' # be_bytes 6 ts @ be_bytes 8 oref @ (if sd = ''S'' then ord CHR ''S'' else ord CHR ''B'') # be_bytes 4 sh @ map of_char (take 8 (ljust stock 8)) @ be_bytes 4 pr @ be_bytes 8 mid)"
    using assms by (intro trade_frame)
  show "MSG_CHAR_TO_TYPE (ord CHR ''P'') = Some TRADE"
    by (simp add: MSG_CHAR_TO_TYPE_eq ord_simps)
  show "length (ord CHR ''P'' # be_bytes 6 ts @ be_bytes 8 oref @ (if sd = ''S'' then ord CHR ''S'' else ord CHR ''B'') # be_bytes 4 sh @ map of_char (take 8 (ljust stock 8)) @ be_bytes 4 pr @ be_bytes 8 mid) = MSG_LENGTHS TRADE"
    by (simp add: length_be_bytes min_length_ljust bytes_zero_def)
  show "decode_frame TRADE (ord CHR ''P'' # be_bytes 6 ts @ be_bytes 8 oref @ (if sd = ''S'' then ord CHR ''S'' else ord CHR ''B'') # be_bytes 4 sh @ map of_char (take 8 (ljust stock 8)) @ be_bytes 4 pr @ be_bytes 8 mid) =
    Inr \<lparr>valid = True, msg_type = Some (MessageType_value TRADE), order_ref = oref,
             side = (if sd = ''S'' then 1 else 0), shares = sh, price = pr, new_order_ref = 0,
             timestamp = ts, misc_data = mid\<rparr>"
    using assms by (intro trade_decode)
qed

lemma add_order_mpid_frame:
  assumes "0 \<le> ts" "ts < 2 ^ 48"
    "0 \<le> oref" "oref < 2 ^ 64"
    "0 \<le> sh" "sh < 2 ^ 32"
    "0 \<le> pr" "pr < 2 ^ 32"
    "is_ascii stock"
    "is_ascii mpid"
  shows "gen_add_order_mpid ts oref sd sh stock pr mpid =
    Inr (ord CHR ''F'' # be_bytes 6 ts @ be_bytes 8 oref @ (if sd = ''S'' then ord CHR ''S'' else ord CHR ''B'') # be_bytes 4 sh @ map of_char (take 8 (ljust stock 8)) @ be_bytes 4 pr @ map of_char (take 4 (ljust mpid 4)) @ bytes_zero 4)"
  using assms
  by (simp add: gen_add_order_mpid_def encode_ascii_field to_bytes_big_ok)

lemma add_order_mpid_decode:
  assumes "0 \<le> ts" "ts < 2 ^ 48"
    "0 \<le> oref" "oref < 2 ^ 64"
    "0 \<le> sh" "sh < 2 ^ 32"
    "0 \<le> pr" "pr < 2 ^ 32"
  shows "decode_frame ADD_ORDER_MPID (ord CHR ''F'' # be_bytes 6 ts @ be_bytes 8 oref @ (if sd = ''S'' then ord CHR ''S'' else ord CHR ''B'') # be_bytes 4 sh @ map of_char (take 8 (ljust stock 8)) @ be_bytes 4 pr @ map of_char (take 4 (ljust mpid 4)) @ bytes_zero 4) =
    Inr \<lparr>valid = True, msg_type = Some (MessageType_value ADD_ORDER_MPID), order_ref = oref,
             side = (if sd = ''S'' then 1 else 0), shares = sh, price = pr, new_order_ref = 0,
             timestamp = ts, misc_data = from_bytes_big (map of_char (take 8 (ljust stock 8)))\<rparr>"
  using assms
  by (simp add: decode_frame_def completed_def decode_message_def py_slice_def getitem_def
        length_be_bytes min_length_ljust from_bytes_be_bytes_id nth_append
        ParsedMessage_init_def bytes_zero_def ord_simps)

lemma add_order_mpid_parse:
  assumes "0 \<le> ts" "ts < 2 ^ 48"
    "0 \<le> oref" "oref < 2 ^ 64"
    "0 \<le> sh" "sh < 2 ^ 32"
    "0 \<le> pr" "pr < 2 ^ 32"
    "is_ascii stock"
    "is_ascii mpid"
  shows "\<exists>frame. gen_add_order_mpid ts oref sd sh stock pr mpid = Inr frame \<and> length frame = MSG_LENGTHS ADD_ORDER_MPID \<and>
           snd (parse_message p frame) =
             Inr \<lparr>valid = True, msg_type = Some (MessageType_value ADD_ORDER_MPID), order_ref = oref,
             side = (if sd = ''S'' then 1 else 0), shares = sh, price = pr, new_order_ref = 0,
             timestamp = ts, misc_data = from_bytes_big (map of_char (take 8 (ljust stock 8)))\<rparr>"
proof (rule parse_generated)
  show "gen_add_order_mpid ts oref sd sh stock pr mpid =
    Inr (ord CHR ''F'' # be_bytes 6 ts @ be_bytes 8 oref @ (if sd = ''S'' then ord CHR ''S'' else ord CHR ''B'') # be_bytes 4 sh @ map of_char (take 8 (ljust stock 8)) @ be_bytes 4 pr @ map of_char (take 4 (ljust mpid 4)) @ bytes_zero 4)"
    using assms by (intro add_order_mpid_frame)
  show "MSG_CHAR_TO_TYPE (ord CHR ''F'') = Some ADD_ORDER_MPID"
    by (simp add: MSG_CHAR_TO_TYPE_eq ord_simps)
  show "length (ord CHR ''F'' # be_bytes 6 ts @ be_bytes 8 oref @ (if sd = ''S'' then ord CHR ''S'' else ord CHR ''B'') # be_bytes 4 sh @ map of_char (take 8 (ljust stock 8)) @ be_bytes 4 pr @ map of_char (take 4 (ljust mpid 4)) @ bytes_zero 4) = MSG_LENGTHS ADD_ORDER_MPID"
    by (simp add: length_be_bytes min_length_ljust bytes_zero_def)
  show "decode_frame ADD_ORDER_MPID (ord CHR ''F'' # be_bytes 6 ts @ be_bytes 8 oref @ (if sd = ''S'' then ord CHR ''S'' else ord CHR ''B'') # be_bytes 4 sh @ map of_char (take 8 (ljust stock 8)) @ be_bytes 4 pr @ map of_char (take 4 (ljust mpid 4)) @ bytes_zero 4) =
    Inr \<lparr>valid = True, msg_type = Some (MessageType_value ADD_ORDER_MPID), order_ref = oref,
             side = (if sd = ''S'' then 1 else 0), shares = sh, price = pr, new_order_ref = 0,
             timestamp = ts, misc_data = from_bytes_big (map of_char (take 8 (ljust stock 8)))\<rparr>"
    using assms by (intro add_order_mpid_decode)
qed

lemma executed_price_frame:
  assumes "0 \<le> ts" "ts < 2 ^ 48"
    "0 \<le> oref" "oref < 2 ^ 64"
    "0 \<le> sh" "sh < 2 ^ 32"
    "0 \<le> mid" "mid < 2 ^ 64"
    "0 \<le> pr" "pr < 2 ^ 32"
  shows "gen_executed_price ts oref sh mid printable pr =
    Inr (ord CHR ''C'' # be_bytes 6 ts @ be_bytes 8 oref @ be_bytes 4 sh @ be_bytes 8 mid @ (if printable then ord CHR ''Y'' else ord CHR ''N'') # be_bytes 4 pr @ bytes_zero 4)"
  using assms
  by (simp add: gen_executed_price_def encode_ascii_field to_bytes_big_ok)

lemma executed_price_decode:
  assumes "0 \<le> ts" "ts < 2 ^ 48"
    "0 \<le> oref" "oref < 2 ^ 64"
    "0 \<le> sh" "sh < 2 ^ 32"
    "0 \<le> mid" "mid < 2 ^ 64"
    "0 \<le> pr" "pr < 2 ^ 32"
  shows "decode_frame EXECUTED_PRICE (ord CHR ''C'' # be_bytes 6 ts @ be_bytes 8 oref @ be_bytes 4 sh @ be_bytes 8 mid @ (if printable then ord CHR ''Y'' else ord CHR ''N'') # be_bytes 4 pr @ bytes_zero 4) =
    Inr \<lparr>valid = True, msg_type = Some (MessageType_value EXECUTED_PRICE), order_ref = oref,
             side = 0, shares = sh, price = pr, new_order_ref = 0,
             timestamp = ts, misc_data = mid\<rparr>"
  using assms
  by (simp add: decode_frame_def completed_def decode_message_def py_slice_def getitem_def
        length_be_bytes min_length_ljust from_bytes_be_bytes_id nth_append
        ParsedMessage_init_def bytes_zero_def ord_simps)

lemma executed_price_parse:
  assumes "0 \<le> ts" "ts < 2 ^ 48"
    "0 \<le> oref" "oref < 2 ^ 64"
    "0 \<le> sh" "sh < 2 ^ 32"
    "0 \<le> mid" "mid < 2 ^ 64"
    "0 \<le> pr" "pr < 2 ^ 32"
  shows "\<exists>frame. gen_executed_price ts oref sh mid printable pr = Inr frame \<and> length frame = MSG_LENGTHS EXECUTED_PRICE \<and>
           snd (parse_message p frame) =
             Inr \<lparr>valid = True, msg_type = Some (MessageType_value EXECUTED_PRICE), order_ref = oref,
             side = 0, shares = sh, price = pr, new_order_ref = 0,
             timestamp = ts, misc_data = mid\<rparr>"
proof (rule parse_generated)
  show "gen_executed_price ts oref sh mid printable pr =
    Inr (ord CHR ''C'' # be_bytes 6 ts @ be_bytes 8 oref @ be_bytes 4 sh @ be_bytes 8 mid @ (if printable then ord CHR ''Y'' else ord CHR ''N'') # be_bytes 4 pr @ bytes_zero 4)"
    using assms by (intro executed_price_frame)
  show "MSG_CHAR_TO_TYPE (ord CHR ''C'') = Some EXECUTED_PRICE"
    by (simp add: MSG_CHAR_TO_TYPE_eq ord_simps)
  show "length (ord CHR ''C'' # be_bytes 6 ts @ be_bytes 8 oref @ be_bytes 4 sh @ be_bytes 8 mid @ (if printable then ord CHR ''Y'' else ord CHR ''N'') # be_bytes 4 pr @ bytes_zero 4) = MSG_LENGTHS EXECUTED_PRICE"
    by (simp add: length_be_bytes min_length_ljust bytes_zero_def)
  show "decode_frame EXECUTED_PRICE (ord CHR ''C'' # be_bytes 6 ts @ be_bytes 8 oref @ be_bytes 4 sh @ be_bytes 8 mid @ (if printable then ord CHR ''Y'' else ord CHR ''N'') # be_bytes 4 pr @ bytes_zero 4) =
    Inr \<lparr>valid = True, msg_type = Some (MessageType_value EXECUTED_PRICE), order_ref = oref,
             side = 0, shares = sh, price = pr, new_order_ref = 0,
             timestamp = ts, misc_data = mid\<rparr>"
    using assms by (intro executed_price_decode)
qed

lemma broken_trade_frame:
  assumes "0 \<le> ts" "ts < 2 ^ 48"
    "0 \<le> mid" "mid < 2 ^ 64"
  shows "gen_broken_trade ts mid =
    Inr (ord CHR ''B'' # be_bytes 6 ts @ be_bytes 8 mid @ bytes_zero 4)"
  using assms
  by (simp add: gen_broken_trade_def encode_ascii_field to_bytes_big_ok)

lemma broken_trade_decode:
  assumes "0 \<le> ts" "ts < 2 ^ 48"
    "0 \<le> mid" "mid < 2 ^ 64"
  shows "decode_frame BROKEN_TRADE (ord CHR ''B'' # be_bytes 6 ts @ be_bytes 8 mid @ bytes_zero 4) =
    Inr \<lparr>valid = True, msg_type = Some (MessageType_value BROKEN_TRADE), order_ref = 0,
             side = 0, shares = 0, price = 0, new_order_ref = 0,
             timestamp = ts, misc_data = mid\<rparr>"
  using assms
  by (simp add: decode_frame_def completed_def decode_message_def py_slice_def getitem_def
        length_be_bytes min_length_ljust from_bytes_be_bytes_id nth_append
        ParsedMessage_init_def bytes_zero_def ord_simps)

lemma broken_trade_parse:
  assumes "0 \<le> ts" "ts < 2 ^ 48"
    "0 \<le> mid" "mid < 2 ^ 64"
  shows "\<exists>frame. gen_broken_trade ts mid = Inr frame \<and> length frame = MSG_LENGTHS BROKEN_TRADE \<and>
           snd (parse_message p frame) =
             Inr \<lparr>valid = True, msg_type = Some (MessageType_value BROKEN_TRADE), order_ref = 0,
             side = 0, shares = 0, price = 0, new_order_ref = 0,
             timestamp = ts, misc_data = mid\<rparr>"
proof (rule parse_generated)
  show "gen_broken_trade ts mid =
    Inr (ord CHR ''B'' # be_bytes 6 ts @ be_bytes 8 mid @ bytes_zero 4)"
    using assms by (intro broken_trade_frame)
  show "MSG_CHAR_TO_TYPE (ord CHR ''B'') = Some BROKEN_TRADE"
    by (simp add: MSG_CHAR_TO_TYPE_eq ord_simps)
  show "length (ord CHR ''B'' # be_bytes 6 ts @ be_bytes 8 mid @ bytes_zero 4) = MSG_LENGTHS BROKEN_TRADE"
    by (simp add: length_be_bytes min_length_ljust bytes_zero_def)
  show "decode_frame BROKEN_TRADE (ord CHR ''B'' # be_bytes 6 ts @ be_bytes 8 mid @ bytes_zero 4) =
    Inr \<lparr>valid = True, msg_type = Some (MessageType_value BROKEN_TRADE), order_ref = 0,
             side = 0, shares = 0, price = 0, new_order_ref = 0,
             timestamp = ts, misc_data = mid\<rparr>"
    using assms by (intro broken_trade_decode)
qed

lemma ex_frame_drop_length:
  "\<exists>frame. g = Inr frame \<and> length frame = n \<and> P frame \<Longrightarrow> \<exists>frame. g = Inr frame \<and> P frame"
  by blast

lemma ex_frame_length:
  "\<exists>frame. g = Inr frame \<and> length frame = n \<and> P frame \<Longrightarrow> n = k \<Longrightarrow>
   \<exists>frame. g = Inr frame \<and> length frame = n \<and> length frame = k"
  by auto

section \<open>Properties of the parser\<close>

subsection \<open>Concrete scenarios\<close>

text \<open>
  C7. (1) \<^verbatim>\<open>gen_delete_order(0x0102030405060708)\<close> is the nine bytes
  \<^verbatim>\<open>44 01 02 03 04 05 06 07 08\<close>, and \<^verbatim>\<open>parse_message\<close> on them returns a valid result of
  type DELETE_ORDER with that \<open>order_ref\<close> and every other field at its default.
  (2) \<^verbatim>\<open>gen_broken_trade(0xCAFE, 0x0123456789ABCDEF)\<close> is a frame of 19 bytes that
  \<^verbatim>\<open>parse_message\<close> decodes to a valid result of type BROKEN_TRADE with
  \<open>misc_data = 0x0123456789ABCDEF\<close>, the timestamp \<open>0xCAFE\<close> (the bytes \<open>[1:7)\<close> of the
  frame) and \<open>order_ref\<close> at its default 0.
\<close>

theorem concrete_scenarios:
  "gen_delete_order 0x0102030405060708 = Inr [0x44, 0x01, 0x02, 0x03, 0x04, 0x05, 0x06, 0x07, 0x08]
   \<and> snd (parse_message p [0x44, 0x01, 0x02, 0x03, 0x04, 0x05, 0x06, 0x07, 0x08]) =
       Inr \<lparr>valid = True, msg_type = Some (MessageType_value DELETE_ORDER),
            order_ref = 0x0102030405060708, side = 0, shares = 0, price = 0,
            new_order_ref = 0, timestamp = 0, misc_data = 0\<rparr>
   \<and> (\<exists>frame. gen_broken_trade 0x00000000CAFE 0x0123456789ABCDEF = Inr frame
        \<and> length frame = 19
        \<and> snd (parse_message p frame) =
            Inr \<lparr>valid = True, msg_type = Some (MessageType_value BROKEN_TRADE),
                 order_ref = 0, side = 0, shares = 0, price = 0, new_order_ref = 0,
                 timestamp = 0x00000000CAFE, misc_data = 0x0123456789ABCDEF\<rparr>
        \<and> from_bytes_big (py_slice frame 1 7) = 0x00000000CAFE)"
proof -
  have g1: "gen_delete_order 0x0102030405060708 = Inr [0x44, 0x01, 0x02, 0x03, 0x04, 0x05, 0x06, 0x07, 0x08]"
    by (simp add: gen_delete_order_def to_bytes_big_def ord_simps eval_nat_numeral)
  have d1: "decode_frame DELETE_ORDER [0x44, 0x01, 0x02, 0x03, 0x04, 0x05, 0x06, 0x07, 0x08] =
      Inr \<lparr>valid = True, msg_type = Some 2,
            order_ref = 0x0102030405060708, side = 0, shares = 0, price = 0,
            new_order_ref = 0, timestamp = 0, misc_data = 0\<rparr>"
    by (simp add: decode_frame_def completed_def decode_message_def py_slice_def
          from_bytes_big_def ParsedMessage_init_def)
  have p1: "snd (parse_message p [0x44, 0x01, 0x02, 0x03, 0x04, 0x05, 0x06, 0x07, 0x08]) =
       Inr \<lparr>valid = True, msg_type = Some (MessageType_value DELETE_ORDER),
            order_ref = 0x0102030405060708, side = 0, shares = 0, price = 0,
            new_order_ref = 0, timestamp = 0, misc_data = 0\<rparr>"
    using parse_message_frame [OF _ _ d1, of p] by (simp add: MSG_CHAR_TO_TYPE_eq)
  let ?f = "[66, 0, 0, 0, 0, 202, 254, 1, 35, 69, 103, 137, 171, 205, 239, 0, 0, 0, 0] :: byte list"
  have g2: "gen_broken_trade 0x00000000CAFE 0x0123456789ABCDEF = Inr ?f"
    by (simp add: gen_broken_trade_def to_bytes_big_def ord_simps eval_nat_numeral bytes_zero_def)
  have d2: "decode_frame BROKEN_TRADE ?f =
      Inr \<lparr>valid = True, msg_type = Some 8,
                 order_ref = 0, side = 0, shares = 0, price = 0, new_order_ref = 0,
                 timestamp = 0x00000000CAFE, misc_data = 0x0123456789ABCDEF\<rparr>"
    by (simp add: decode_frame_def completed_def decode_message_def py_slice_def
          from_bytes_big_def ParsedMessage_init_def)
  have p2: "snd (parse_message p ?f) =
      Inr \<lparr>valid = True, msg_type = Some (MessageType_value BROKEN_TRADE),
                 order_ref = 0, side = 0, shares = 0, price = 0, new_order_ref = 0,
                 timestamp = 0x00000000CAFE, misc_data = 0x0123456789ABCDEF\<rparr>"
    using parse_message_frame [OF _ _ d2, of p] by (simp add: MSG_CHAR_TO_TYPE_eq)
  have s2: "from_bytes_big (py_slice ?f 1 7) = 0x00000000CAFE"
    by (simp add: py_slice_def from_bytes_big_def)
  show ?thesis
    using g1 p1 g2 p2 s2 by simp
qed

subsection \<open>The type registry: tags and lengths\<close>

text \<open>
  Two pairs of message types share a frame length, so the length is not unique per type:
  ADD_ORDER and EXECUTED_PRICE are both 36 bytes long (TRADE and ADD_ORDER_MPID are both 40).
\<close>

theorem lengths_not_unique_counterexample:
  "ADD_ORDER \<noteq> EXECUTED_PRICE \<and> MSG_LENGTHS ADD_ORDER = MSG_LENGTHS EXECUTED_PRICE"
  by simp

text \<open>
  C2, as amended. Every message type has exactly one tag byte, and distinct types have
  distinct tags. Two distinct types have the same frame length exactly when they are
  ADD_ORDER and EXECUTED_PRICE (36) or TRADE and ADD_ORDER_MPID (40). The lookup
  \<^verbatim>\<open>byte in MSG_CHAR_TO_TYPE\<close> accepts the nine tags \<^verbatim>\<open>A X D E U P F C B\<close> and no other byte.
  The table of \<^verbatim>\<open>ITCH_config.py\<close> gives every type the same length.
\<close>

theorem registry_tags_unique_lengths_shared:
  "(\<exists>!b. MSG_CHAR_TO_TYPE b = Some k)
   \<and> (MSG_CHAR_TO_TYPE b1 = Some k1 \<and> MSG_CHAR_TO_TYPE b2 = Some k2 \<and> k1 \<noteq> k2 \<longrightarrow> b1 \<noteq> b2)
   \<and> (k1 \<noteq> k2 \<longrightarrow>
        (MSG_LENGTHS k1 = MSG_LENGTHS k2) =
          ({k1, k2} = {ADD_ORDER, EXECUTED_PRICE} \<or> {k1, k2} = {TRADE, ADD_ORDER_MPID}))
   \<and> (MSG_CHAR_TO_TYPE b \<noteq> None) =
        (b \<in> {ord CHR ''A'', ord CHR ''X'', ord CHR ''D'', ord CHR ''E'', ord CHR ''U'',
              ord CHR ''P'', ord CHR ''F'', ord CHR ''C'', ord CHR ''B''})
   \<and> map (map_of config_MSG_LENGTHS)
        [''add'', ''cancel'', ''delete'', ''executed'', ''replace'', ''trade'', ''add_mpid'',
         ''executed_price'', ''broken_trade'']
      = map (\<lambda>k. Some (MSG_LENGTHS k))
        [ADD_ORDER, CANCEL_ORDER, DELETE_ORDER, EXECUTED_ORDER, REPLACE_ORDER, TRADE,
         ADD_ORDER_MPID, EXECUTED_PRICE, BROKEN_TRADE]"
proof -
  have "\<exists>!b. MSG_CHAR_TO_TYPE b = Some k"
    using MSG_CHAR_TO_TYPE_surj [of k] MSG_CHAR_TO_TYPE_inj [of _ k] by blast
  moreover have "MSG_CHAR_TO_TYPE b1 = Some k1 \<and> MSG_CHAR_TO_TYPE b2 = Some k2 \<and> k1 \<noteq> k2 \<longrightarrow> b1 \<noteq> b2"
    by auto
  ultimately show ?thesis
    using MSG_LENGTHS_shared [of k1 k2] MSG_CHAR_TO_TYPE_dom [of b] config_MSG_LENGTHS_agree
    by blast
qed

theorem registry_tags_unique_lengths_shared_witness:
  "MSG_CHAR_TO_TYPE (ord CHR ''A'') = Some ADD_ORDER
   \<and> MSG_CHAR_TO_TYPE (ord CHR ''X'') = Some CANCEL_ORDER
   \<and> ADD_ORDER \<noteq> CANCEL_ORDER
   \<and> ord CHR ''A'' \<noteq> ord CHR ''X''
   \<and> MSG_LENGTHS ADD_ORDER \<noteq> MSG_LENGTHS CANCEL_ORDER
   \<and> MSG_CHAR_TO_TYPE 0x5A = None"
proof -
  have h: "MSG_CHAR_TO_TYPE (ord CHR ''A'') = Some ADD_ORDER"
    "MSG_CHAR_TO_TYPE (ord CHR ''X'') = Some CANCEL_ORDER" "ADD_ORDER \<noteq> CANCEL_ORDER"
    by (simp_all add: MSG_CHAR_TO_TYPE_eq ord_simps)
  show ?thesis
    using h registry_tags_unique_lengths_shared
      [of ADD_ORDER "ord CHR ''A''" ADD_ORDER "ord CHR ''X''" CANCEL_ORDER "0x5A"]
    by (simp add: ord_simps)
qed

subsection \<open>The life cycle of the assembler state\<close>

text \<open>
  C9. The parser after construction, and after any \<^verbatim>\<open>reset\<close>, is the initial state: counter
  0, no message type, target length 0, empty buffer. A call of \<^verbatim>\<open>feed_byte\<close> that rejects
  an unknown first byte leaves the initial state, and so does every call that returns a
  valid result, that is, a completed frame. In a parser driven from its construction by
  \<^verbatim>\<open>feed_byte\<close>, the byte with which the buffer reaches the target length completes the
  frame: the call returns a valid result and leaves the initial state.
\<close>

theorem assembler_lifecycle:
  "ITCHParser_init =
     \<lparr>self_byte_index = 0, self_msg_type = None, self_msg_length = 0, self_buffer = [],
      self_result = ParsedMessage_init\<rparr>
   \<and> reset s0 = ITCHParser_init
   \<and> (self_byte_index s = 0 \<and> MSG_CHAR_TO_TYPE b = None \<longrightarrow>
        fst (feed_byte s b) = ITCHParser_init)
   \<and> (feed_byte s b = (s', Inr r) \<and> valid r \<longrightarrow> s' = ITCHParser_init)
   \<and> (length (self_buffer (fst (feed_bytes ITCHParser_init data))) + 1 =
        self_msg_length (fst (feed_bytes ITCHParser_init data)) \<longrightarrow>
        (\<exists>r'. feed_byte (fst (feed_bytes ITCHParser_init data)) b = (ITCHParser_init, Inr r')
              \<and> valid r'))"
proof -
  have 1: "ITCHParser_init =
     \<lparr>self_byte_index = 0, self_msg_type = None, self_msg_length = 0, self_buffer = [],
      self_result = ParsedMessage_init\<rparr>"
    by (simp add: ITCHParser_init_def reset_def)
  have 3: "self_byte_index s = 0 \<and> MSG_CHAR_TO_TYPE b = None \<longrightarrow>
        fst (feed_byte s b) = ITCHParser_init"
    by (simp add: feed_byte_reject)
  have 4: "feed_byte s b = (s', Inr r) \<and> valid r \<longrightarrow> s' = ITCHParser_init"
    using feed_byte_valid_resets by blast
  let ?s = "fst (feed_bytes ITCHParser_init data)"
  have "wf ?s"
    using wf_feed_bytes [OF wf_init, of data] by auto
  then have 5: "length (self_buffer ?s) + 1 = self_msg_length ?s \<longrightarrow>
        (\<exists>r'. feed_byte ?s b = (ITCHParser_init, Inr r') \<and> valid r')"
    using reachable_complete_iff [of ?s b] feed_byte_valid_resets [of ?s b] by blast
  show ?thesis using 1 3 4 5 reset_eq [of s0] by blast
qed

theorem assembler_lifecycle_witness:
  "self_byte_index ITCHParser_init = 0 \<and> MSG_CHAR_TO_TYPE 0x5A = None
   \<and> fst (feed_byte ITCHParser_init 0x5A) = ITCHParser_init
   \<and> length (self_buffer (fst (feed_bytes ITCHParser_init [0x44, 1, 2, 3, 4, 5, 6, 7]))) + 1 =
        self_msg_length (fst (feed_bytes ITCHParser_init [0x44, 1, 2, 3, 4, 5, 6, 7]))
   \<and> (\<exists>r'. feed_byte (fst (feed_bytes ITCHParser_init [0x44, 1, 2, 3, 4, 5, 6, 7])) 8 =
              (ITCHParser_init, Inr r') \<and> valid r')"
proof -
  have h1: "self_byte_index ITCHParser_init = 0 \<and> MSG_CHAR_TO_TYPE 0x5A = None"
    by (simp add: init_fields MSG_CHAR_TO_TYPE_eq)
  have s: "fst (feed_bytes ITCHParser_init [0x44, 1, 2, 3, 4, 5, 6, 7]) =
     \<lparr>self_byte_index = 8, self_msg_type = Some DELETE_ORDER, self_msg_length = 9,
      self_buffer = [0x44, 1, 2, 3, 4, 5, 6, 7], self_result = ParsedMessage_init\<rparr>"
    by (simp add: feed_byte_def ITCHParser_init_def reset_def MSG_CHAR_TO_TYPE_eq)
  have h2: "length (self_buffer (fst (feed_bytes ITCHParser_init [0x44, 1, 2, 3, 4, 5, 6, 7]))) + 1 =
        self_msg_length (fst (feed_bytes ITCHParser_init [0x44, 1, 2, 3, 4, 5, 6, 7]))"
    unfolding s by simp
  show ?thesis
    using h1 h2 assembler_lifecycle
      [of ITCHParser_init ITCHParser_init "0x5A" _ _ "[0x44, 1, 2, 3, 4, 5, 6, 7]"]
      assembler_lifecycle
      [of ITCHParser_init ITCHParser_init 8 _ _ "[0x44, 1, 2, 3, 4, 5, 6, 7]"]
    by blast
qed

subsection \<open>What a caller sees of a rejection\<close>

text \<open>
  C10. \<^verbatim>\<open>feed_byte\<close> returns the same value, \<^verbatim>\<open>ParsedMessage(valid=False)\<close> with every other
  field at its default, when it rejects an unknown first byte, when it appends a byte
  that does not complete the frame, and when it accepts a first byte: the return value
  does not tell a rejection from accumulation.
\<close>

theorem rejection_and_accumulation_return_the_same:
  "(self_byte_index s = 0 \<and> MSG_CHAR_TO_TYPE b = None \<longrightarrow>
      snd (feed_byte s b) =
        Inr \<lparr>valid = False, msg_type = Some 0, order_ref = 0, side = 0, shares = 0, price = 0,
             new_order_ref = 0, timestamp = 0, misc_data = 0\<rparr>)
   \<and> (self_byte_index s' \<noteq> 0 \<and> self_byte_index s' + 1 < self_msg_length s' \<longrightarrow>
      snd (feed_byte s' b') =
        Inr \<lparr>valid = False, msg_type = Some 0, order_ref = 0, side = 0, shares = 0, price = 0,
             new_order_ref = 0, timestamp = 0, misc_data = 0\<rparr>)
   \<and> (self_byte_index s'' = 0 \<and> MSG_CHAR_TO_TYPE b'' \<noteq> None \<longrightarrow>
      snd (feed_byte s'' b'') =
        Inr \<lparr>valid = False, msg_type = Some 0, order_ref = 0, side = 0, shares = 0, price = 0,
             new_order_ref = 0, timestamp = 0, misc_data = 0\<rparr>)"
proof -
  have d: "ParsedMessage_init\<lparr>valid := False\<rparr> =
      \<lparr>valid = False, msg_type = Some 0, order_ref = 0, side = 0, shares = 0, price = 0,
             new_order_ref = 0, timestamp = 0, misc_data = 0\<rparr>"
    by (simp add: ParsedMessage_init_def)
  show ?thesis
    using feed_byte_reject [of s b] feed_byte_append [of s' b'] feed_byte_accept [of s'' b'']
    by (auto simp: d)
qed

theorem rejection_and_accumulation_return_the_same_witness:
  "self_byte_index ITCHParser_init = 0 \<and> MSG_CHAR_TO_TYPE 0x5A = None
   \<and> snd (feed_byte ITCHParser_init 0x5A) =
        Inr \<lparr>valid = False, msg_type = Some 0, order_ref = 0, side = 0, shares = 0, price = 0,
             new_order_ref = 0, timestamp = 0, misc_data = 0\<rparr>
   \<and> self_byte_index (fst (feed_byte ITCHParser_init 0x44)) \<noteq> 0
   \<and> self_byte_index (fst (feed_byte ITCHParser_init 0x44)) + 1 <
       self_msg_length (fst (feed_byte ITCHParser_init 0x44))
   \<and> snd (feed_byte (fst (feed_byte ITCHParser_init 0x44)) 0x5A) =
        Inr \<lparr>valid = False, msg_type = Some 0, order_ref = 0, side = 0, shares = 0, price = 0,
             new_order_ref = 0, timestamp = 0, misc_data = 0\<rparr>
   \<and> MSG_CHAR_TO_TYPE 0x44 \<noteq> None
   \<and> snd (feed_byte ITCHParser_init 0x44) =
        Inr \<lparr>valid = False, msg_type = Some 0, order_ref = 0, side = 0, shares = 0, price = 0,
             new_order_ref = 0, timestamp = 0, misc_data = 0\<rparr>"
proof -
  have h: "self_byte_index ITCHParser_init = 0 \<and> MSG_CHAR_TO_TYPE 0x5A = None"
    "self_byte_index (fst (feed_byte ITCHParser_init 0x44)) \<noteq> 0
     \<and> self_byte_index (fst (feed_byte ITCHParser_init 0x44)) + 1 <
       self_msg_length (fst (feed_byte ITCHParser_init 0x44))"
    "self_byte_index ITCHParser_init = 0 \<and> MSG_CHAR_TO_TYPE 0x44 \<noteq> None"
    by (simp_all add: init_fields MSG_CHAR_TO_TYPE_eq feed_byte_def)
  show ?thesis
    using h rejection_and_accumulation_return_the_same
      [of ITCHParser_init "0x5A" "fst (feed_byte ITCHParser_init 0x44)" "0x5A" ITCHParser_init "0x44"]
    by blast
qed

subsection \<open>The side byte\<close>

text \<open>
  C6. For a completed frame of a type that has a side (ADD_ORDER, TRADE, ADD_ORDER_MPID),
  \<^verbatim>\<open>_decode_message\<close> never raises and returns a valid result whose \<open>side\<close> is 1 (Sell)
  when the byte at offset 15 is \<open>0x53\<close> (\<^verbatim>\<open>'S'\<close>) and 0 (Buy) for every other value of that
  byte; the same holds for the result of \<^verbatim>\<open>parse_message\<close> on such a frame. No value of
  the side byte is rejected.
\<close>

theorem side_decoding:
  assumes "t = ADD_ORDER \<or> t = TRADE \<or> t = ADD_ORDER_MPID"
  shows "(self_msg_type s = Some t \<and> length (self_buffer s) = MSG_LENGTHS t \<longrightarrow>
            (\<exists>r. decode_message s = Inr r \<and> valid r \<and>
                 side r = (if self_buffer s ! 15 = 0x53 then 1 else 0)))
       \<and> (MSG_CHAR_TO_TYPE b = Some t \<and> length (b # bs) = MSG_LENGTHS t \<longrightarrow>
            (\<exists>r. snd (parse_message p (b # bs)) = Inr r \<and> valid r \<and>
                 side r = (if (b # bs) ! 15 = 0x53 then 1 else 0)))"
proof (intro conjI impI)
  assume "self_msg_type s = Some t \<and> length (self_buffer s) = MSG_LENGTHS t"
  then show "\<exists>r. decode_message s = Inr r \<and> valid r \<and>
                 side r = (if self_buffer s ! 15 = 0x53 then 1 else 0)"
    using decode_message_side [OF assms, of s] by (simp add: ord_simps)
next
  assume a: "MSG_CHAR_TO_TYPE b = Some t \<and> length (b # bs) = MSG_LENGTHS t"
  then obtain r where r: "decode_frame t (b # bs) = Inr r" "valid r"
      "side r = (if (b # bs) ! 15 = 0x53 then 1 else 0)"
    using decode_message_side [OF assms, of "completed t (b # bs)"]
    by (auto simp: decode_frame_def completed_def ord_simps)
  have "parse_message p (b # bs) = (ITCHParser_init, Inr r)"
    using a r(1) by (intro parse_message_frame) simp_all
  then show "\<exists>r. snd (parse_message p (b # bs)) = Inr r \<and> valid r \<and>
                 side r = (if (b # bs) ! 15 = 0x53 then 1 else 0)"
    using r by simp
qed

theorem side_decoding_witness:
  "self_msg_type (completed ADD_ORDER [0x41 :: byte, 0, 0, 0, 0, 0, 1, 0, 0, 0, 0, 0, 0, 0, 2, 0x53, 0, 0, 0, 100, 0x41, 0x42, 0x43, 0x44, 0x20, 0x20, 0x20, 0x20, 0, 0, 0x27, 0x10, 0, 0, 0, 0]) = Some ADD_ORDER
   \<and> length (self_buffer (completed ADD_ORDER [0x41 :: byte, 0, 0, 0, 0, 0, 1, 0, 0, 0, 0, 0, 0, 0, 2, 0x53, 0, 0, 0, 100, 0x41, 0x42, 0x43, 0x44, 0x20, 0x20, 0x20, 0x20, 0, 0, 0x27, 0x10, 0, 0, 0, 0])) = MSG_LENGTHS ADD_ORDER
   \<and> (\<exists>r. decode_message (completed ADD_ORDER [0x41 :: byte, 0, 0, 0, 0, 0, 1, 0, 0, 0, 0, 0, 0, 0, 2, 0x53, 0, 0, 0, 100, 0x41, 0x42, 0x43, 0x44, 0x20, 0x20, 0x20, 0x20, 0, 0, 0x27, 0x10, 0, 0, 0, 0]) = Inr r \<and> valid r \<and> side r = 1)
   \<and> MSG_CHAR_TO_TYPE 0x41 = Some ADD_ORDER
   \<and> length (0x41 # [0 :: byte, 0, 0, 0, 0, 1, 0, 0, 0, 0, 0, 0, 0, 2, 0x5A, 0, 0, 0, 100, 0x41, 0x42, 0x43, 0x44, 0x20, 0x20, 0x20, 0x20, 0, 0, 0x27, 0x10, 0, 0, 0, 0]) = MSG_LENGTHS ADD_ORDER
   \<and> (\<exists>r. snd (parse_message ITCHParser_init (0x41 # [0 :: byte, 0, 0, 0, 0, 1, 0, 0, 0, 0, 0, 0, 0, 2, 0x5A, 0, 0, 0, 100, 0x41, 0x42, 0x43, 0x44, 0x20, 0x20, 0x20, 0x20, 0, 0, 0x27, 0x10, 0, 0, 0, 0])) = Inr r \<and> valid r \<and> side r = 0)"
proof -
  have t: "ADD_ORDER = ADD_ORDER \<or> ADD_ORDER = TRADE \<or> ADD_ORDER = ADD_ORDER_MPID"
    by simp
  have h1: "self_msg_type (completed ADD_ORDER [0x41 :: byte, 0, 0, 0, 0, 0, 1, 0, 0, 0, 0, 0, 0, 0, 2, 0x53, 0, 0, 0, 100, 0x41, 0x42, 0x43, 0x44, 0x20, 0x20, 0x20, 0x20, 0, 0, 0x27, 0x10, 0, 0, 0, 0]) = Some ADD_ORDER
   \<and> length (self_buffer (completed ADD_ORDER [0x41 :: byte, 0, 0, 0, 0, 0, 1, 0, 0, 0, 0, 0, 0, 0, 2, 0x53, 0, 0, 0, 100, 0x41, 0x42, 0x43, 0x44, 0x20, 0x20, 0x20, 0x20, 0, 0, 0x27, 0x10, 0, 0, 0, 0])) = MSG_LENGTHS ADD_ORDER"
    by (simp add: completed_def)
  have h2: "MSG_CHAR_TO_TYPE 0x41 = Some ADD_ORDER
   \<and> length (0x41 # [0 :: byte, 0, 0, 0, 0, 1, 0, 0, 0, 0, 0, 0, 0, 2, 0x5A, 0, 0, 0, 100, 0x41, 0x42, 0x43, 0x44, 0x20, 0x20, 0x20, 0x20, 0, 0, 0x27, 0x10, 0, 0, 0, 0]) = MSG_LENGTHS ADD_ORDER"
    by (simp add: MSG_CHAR_TO_TYPE_eq)
  have n1: "(self_buffer (completed ADD_ORDER [0x41 :: byte, 0, 0, 0, 0, 0, 1, 0, 0, 0, 0, 0, 0, 0, 2, 0x53, 0, 0, 0, 100, 0x41, 0x42, 0x43, 0x44, 0x20, 0x20, 0x20, 0x20, 0, 0, 0x27, 0x10, 0, 0, 0, 0]) ! 15 = 0x53) = True"
    by (simp add: completed_def)
  have n2: "((0x41 # [0 :: byte, 0, 0, 0, 0, 1, 0, 0, 0, 0, 0, 0, 0, 2, 0x5A, 0, 0, 0, 100, 0x41, 0x42, 0x43, 0x44, 0x20, 0x20, 0x20, 0x20, 0, 0, 0x27, 0x10, 0, 0, 0, 0]) ! 15 = 0x53) = False"
    by simp
  note w = side_decoding [OF t, of "completed ADD_ORDER [0x41 :: byte, 0, 0, 0, 0, 0, 1, 0, 0, 0, 0, 0, 0, 0, 2, 0x53, 0, 0, 0, 100, 0x41, 0x42, 0x43, 0x44, 0x20, 0x20, 0x20, 0x20, 0, 0, 0x27, 0x10, 0, 0, 0, 0]" "0x41" "[0 :: byte, 0, 0, 0, 0, 1, 0, 0, 0, 0, 0, 0, 0, 2, 0x5A, 0, 0, 0, 100, 0x41, 0x42, 0x43, 0x44, 0x20, 0x20, 0x20, 0x20, 0, 0, 0x27, 0x10, 0, 0, 0, 0]" ITCHParser_init]
  have c1: "\<exists>r. decode_message (completed ADD_ORDER [0x41 :: byte, 0, 0, 0, 0, 0, 1, 0, 0, 0, 0, 0, 0, 0, 2, 0x53, 0, 0, 0, 100, 0x41, 0x42, 0x43, 0x44, 0x20, 0x20, 0x20, 0x20, 0, 0, 0x27, 0x10, 0, 0, 0, 0]) = Inr r \<and> valid r \<and> side r = 1"
    using w [THEN conjunct1, THEN mp, OF h1] unfolding n1 if_True .
  have c2: "\<exists>r. snd (parse_message ITCHParser_init (0x41 # [0 :: byte, 0, 0, 0, 0, 1, 0, 0, 0, 0, 0, 0, 0, 2, 0x5A, 0, 0, 0, 100, 0x41, 0x42, 0x43, 0x44, 0x20, 0x20, 0x20, 0x20, 0, 0, 0x27, 0x10, 0, 0, 0, 0])) = Inr r \<and> valid r \<and> side r = 0"
    using w [THEN conjunct2, THEN mp, OF h2] unfolding n2 if_False .
  show ?thesis
    by (intro conjI) (rule h1 [THEN conjunct1] h1 [THEN conjunct2] c1 h2 [THEN conjunct1]
      h2 [THEN conjunct2] c2)+
qed

subsection \<open>Byte-at-a-time feeding and \<^verbatim>\<open>parse_message\<close>\<close>

text \<open>
  C3. Feeding the bytes of any \<open>data\<close> one at a time to a freshly reset parser never
  raises and gives one result per byte. \<^verbatim>\<open>parse_message(data)\<close> returns the first of these
  results that is valid, and \<^verbatim>\<open>ParsedMessage(valid=False)\<close> when none is.
\<close>

theorem feed_byte_refines_parse_message:
  "\<exists>s' rs. feed_bytes (reset p0) data = (s', Inr rs) \<and> length rs = length data \<and>
     snd (parse_message p data) =
       Inr (case find valid rs of
              Some r \<Rightarrow> r
            | None \<Rightarrow> \<lparr>valid = False, msg_type = Some 0, order_ref = 0, side = 0, shares = 0,
                       price = 0, new_order_ref = 0, timestamp = 0, misc_data = 0\<rparr>)"
proof -
  have d: "ParsedMessage_init\<lparr>valid := False\<rparr> =
      \<lparr>valid = False, msg_type = Some 0, order_ref = 0, side = 0, shares = 0, price = 0,
             new_order_ref = 0, timestamp = 0, misc_data = 0\<rparr>"
    by (simp add: ParsedMessage_init_def)
  show ?thesis
    using parse_loop_find [OF wf_init, of data]
    unfolding d by (simp add: parse_message_def reset_eq)
qed

text \<open>
  C8. \<^verbatim>\<open>parse_message\<close> resets the parser first: its outcome does not depend on the parser
  it is called on, so no partial frame is carried over from an earlier call. It never
  raises. When feeding the prefix \<open>pre\<close> gives no valid result and the next byte \<open>b\<close>
  completes a frame, it returns the result for that byte whatever bytes \<open>rest\<close> follow.
  When no byte of \<open>data\<close> gives a valid result, the empty \<open>data\<close> included, it returns
  \<^verbatim>\<open>ParsedMessage(valid=False)\<close>.
\<close>

theorem parse_message_first_frame:
  "parse_message p data = parse_message q data
   \<and> parse_message p data = parse_loop ITCHParser_init data
   \<and> (\<exists>s r. parse_message p data = (s, Inr r))
   \<and> (feed_bytes ITCHParser_init pre = (s1, Inr rs) \<and> list_all (\<lambda>r. \<not> valid r) rs \<and>
       feed_byte s1 b = (s2, Inr r) \<and> valid r \<longrightarrow>
         parse_message p (pre @ b # rest) = (s2, Inr r))
   \<and> (feed_bytes ITCHParser_init data = (s3, Inr rs') \<and> list_all (\<lambda>r. \<not> valid r) rs' \<longrightarrow>
         parse_message p data = (s3, Inr (ParsedMessage_init\<lparr>valid := False\<rparr>)))
   \<and> parse_message p [] = (ITCHParser_init, Inr (ParsedMessage_init\<lparr>valid := False\<rparr>))
   \<and> \<not> valid (ParsedMessage_init\<lparr>valid := False\<rparr>)"
proof -
  have 1: "parse_message p data = parse_message q data"
    by (simp add: parse_message_def reset_eq)
  have 2: "parse_message p data = parse_loop ITCHParser_init data"
    by (simp add: parse_message_def reset_eq)
  have 3: "\<exists>s r. parse_message p data = (s, Inr r)"
    using parse_loop_find [OF wf_init, of data] 2
    by (cases "parse_loop ITCHParser_init data") auto
  have 4: "feed_bytes ITCHParser_init pre = (s1, Inr rs) \<and> list_all (\<lambda>r. \<not> valid r) rs \<and>
       feed_byte s1 b = (s2, Inr r) \<and> valid r \<longrightarrow>
         parse_message p (pre @ b # rest) = (s2, Inr r)"
    using parse_loop_prefix [of ITCHParser_init pre s1 rs "b # rest"]
    by (auto simp: parse_message_def reset_eq)
  have 5: "feed_bytes ITCHParser_init data = (s3, Inr rs') \<and> list_all (\<lambda>r. \<not> valid r) rs' \<longrightarrow>
         parse_message p data = (s3, Inr (ParsedMessage_init\<lparr>valid := False\<rparr>))"
    using parse_loop_prefix [of ITCHParser_init data s3 rs' "[]"]
    by (auto simp: parse_message_def reset_eq)
  have 6: "parse_message p [] = (ITCHParser_init, Inr (ParsedMessage_init\<lparr>valid := False\<rparr>))"
    by (simp add: parse_message_def reset_eq)
  show ?thesis using 1 2 3 4 5 6 by simp
qed

theorem parse_message_first_frame_witness:
  "feed_bytes ITCHParser_init [0x5A, 0x44, 1, 2, 3, 4, 5, 6, 7] = (\<lparr>self_byte_index = 8, self_msg_type = Some DELETE_ORDER, self_msg_length = 9, self_buffer = [0x44, 1, 2, 3, 4, 5, 6, 7], self_result = ParsedMessage_init\<rparr>, Inr (replicate 9 (ParsedMessage_init\<lparr>valid := False\<rparr>)))
   \<and> list_all (\<lambda>r. \<not> valid r) (replicate 9 (ParsedMessage_init\<lparr>valid := False\<rparr>))
   \<and> feed_byte \<lparr>self_byte_index = 8, self_msg_type = Some DELETE_ORDER, self_msg_length = 9, self_buffer = [0x44, 1, 2, 3, 4, 5, 6, 7], self_result = ParsedMessage_init\<rparr> 8 = (ITCHParser_init, Inr \<lparr>valid = True, msg_type = Some 2, order_ref = 0x0102030405060708, side = 0, shares = 0, price = 0, new_order_ref = 0, timestamp = 0, misc_data = 0\<rparr>)
   \<and> valid \<lparr>valid = True, msg_type = Some 2, order_ref = 0x0102030405060708, side = 0, shares = 0, price = 0, new_order_ref = 0, timestamp = 0, misc_data = 0\<rparr>
   \<and> parse_message \<lparr>self_byte_index = 3, self_msg_type = Some DELETE_ORDER, self_msg_length = 9, self_buffer = [0x44, 1, 2], self_result = ParsedMessage_init\<rparr> ([0x5A, 0x44, 1, 2, 3, 4, 5, 6, 7] @ 8 # [0xFF, 0x41]) = (ITCHParser_init, Inr \<lparr>valid = True, msg_type = Some 2, order_ref = 0x0102030405060708, side = 0, shares = 0, price = 0, new_order_ref = 0, timestamp = 0, misc_data = 0\<rparr>)
   \<and> feed_bytes ITCHParser_init [0x44, 1, 2] = (\<lparr>self_byte_index = 3, self_msg_type = Some DELETE_ORDER, self_msg_length = 9, self_buffer = [0x44, 1, 2], self_result = ParsedMessage_init\<rparr>, Inr (replicate 3 (ParsedMessage_init\<lparr>valid := False\<rparr>)))
   \<and> list_all (\<lambda>r. \<not> valid r) (replicate 3 (ParsedMessage_init\<lparr>valid := False\<rparr>))
   \<and> parse_message \<lparr>self_byte_index = 3, self_msg_type = Some DELETE_ORDER, self_msg_length = 9, self_buffer = [0x44, 1, 2], self_result = ParsedMessage_init\<rparr> [0x44, 1, 2] = (\<lparr>self_byte_index = 3, self_msg_type = Some DELETE_ORDER, self_msg_length = 9, self_buffer = [0x44, 1, 2], self_result = ParsedMessage_init\<rparr>, Inr (ParsedMessage_init\<lparr>valid := False\<rparr>))"
proof -
  have rep: "replicate 9 (ParsedMessage_init\<lparr>valid := False\<rparr>) = [(ParsedMessage_init\<lparr>valid := False\<rparr>), (ParsedMessage_init\<lparr>valid := False\<rparr>), (ParsedMessage_init\<lparr>valid := False\<rparr>), (ParsedMessage_init\<lparr>valid := False\<rparr>), (ParsedMessage_init\<lparr>valid := False\<rparr>), (ParsedMessage_init\<lparr>valid := False\<rparr>), (ParsedMessage_init\<lparr>valid := False\<rparr>), (ParsedMessage_init\<lparr>valid := False\<rparr>), (ParsedMessage_init\<lparr>valid := False\<rparr>)]"
     "replicate 3 (ParsedMessage_init\<lparr>valid := False\<rparr>) = [(ParsedMessage_init\<lparr>valid := False\<rparr>), (ParsedMessage_init\<lparr>valid := False\<rparr>), (ParsedMessage_init\<lparr>valid := False\<rparr>)]"
    by (simp_all add: numeral_eq_Suc)
  have a: "feed_bytes ITCHParser_init [0x5A, 0x44, 1, 2, 3, 4, 5, 6, 7] = (\<lparr>self_byte_index = 8, self_msg_type = Some DELETE_ORDER, self_msg_length = 9, self_buffer = [0x44, 1, 2, 3, 4, 5, 6, 7], self_result = ParsedMessage_init\<rparr>, Inr (replicate 9 (ParsedMessage_init\<lparr>valid := False\<rparr>)))"
    unfolding rep
    by (simp add: feed_byte_def ITCHParser_init_def reset_def MSG_CHAR_TO_TYPE_eq)
  have b: "list_all (\<lambda>r. \<not> valid r) (replicate 9 (ParsedMessage_init\<lparr>valid := False\<rparr>))"
    "list_all (\<lambda>r. \<not> valid r) (replicate 3 (ParsedMessage_init\<lparr>valid := False\<rparr>))"
    by (simp_all add: list_all_iff)
  have c: "feed_byte \<lparr>self_byte_index = 8, self_msg_type = Some DELETE_ORDER, self_msg_length = 9, self_buffer = [0x44, 1, 2, 3, 4, 5, 6, 7], self_result = ParsedMessage_init\<rparr> 8 = (ITCHParser_init, Inr \<lparr>valid = True, msg_type = Some 2, order_ref = 0x0102030405060708, side = 0, shares = 0, price = 0, new_order_ref = 0, timestamp = 0, misc_data = 0\<rparr>)"
    by (simp add: feed_byte_def reset_eq decode_message_def py_slice_def
          from_bytes_big_def ParsedMessage_init_def)
  have d: "valid \<lparr>valid = True, msg_type = Some 2, order_ref = 0x0102030405060708, side = 0, shares = 0, price = 0, new_order_ref = 0, timestamp = 0, misc_data = 0\<rparr>" by simp
  have e: "feed_bytes ITCHParser_init [0x44, 1, 2] = (\<lparr>self_byte_index = 3, self_msg_type = Some DELETE_ORDER, self_msg_length = 9, self_buffer = [0x44, 1, 2], self_result = ParsedMessage_init\<rparr>, Inr (replicate 3 (ParsedMessage_init\<lparr>valid := False\<rparr>)))"
    unfolding rep
    by (simp add: feed_byte_def ITCHParser_init_def reset_def MSG_CHAR_TO_TYPE_eq)
  note w1 = parse_message_first_frame [of "\<lparr>self_byte_index = 3, self_msg_type = Some DELETE_ORDER, self_msg_length = 9, self_buffer = [0x44, 1, 2], self_result = ParsedMessage_init\<rparr>" "[0x5A, 0x44, 1, 2, 3, 4, 5, 6, 7] @ 8 # [0xFF, 0x41]" _ "[0x5A, 0x44, 1, 2, 3, 4, 5, 6, 7]" "\<lparr>self_byte_index = 8, self_msg_type = Some DELETE_ORDER, self_msg_length = 9, self_buffer = [0x44, 1, 2, 3, 4, 5, 6, 7], self_result = ParsedMessage_init\<rparr>"
        "replicate 9 (ParsedMessage_init\<lparr>valid := False\<rparr>)" 8 ITCHParser_init "\<lparr>valid = True, msg_type = Some 2, order_ref = 0x0102030405060708, side = 0, shares = 0, price = 0, new_order_ref = 0, timestamp = 0, misc_data = 0\<rparr>" "[0xFF, 0x41]"]
  note w2 = parse_message_first_frame [of "\<lparr>self_byte_index = 3, self_msg_type = Some DELETE_ORDER, self_msg_length = 9, self_buffer = [0x44, 1, 2], self_result = ParsedMessage_init\<rparr>" "[0x44, 1, 2]" _ _ _ _ _ _ _ _ "\<lparr>self_byte_index = 3, self_msg_type = Some DELETE_ORDER, self_msg_length = 9, self_buffer = [0x44, 1, 2], self_result = ParsedMessage_init\<rparr>"
        "replicate 3 (ParsedMessage_init\<lparr>valid := False\<rparr>)"]
  have f: "parse_message \<lparr>self_byte_index = 3, self_msg_type = Some DELETE_ORDER, self_msg_length = 9, self_buffer = [0x44, 1, 2], self_result = ParsedMessage_init\<rparr> ([0x5A, 0x44, 1, 2, 3, 4, 5, 6, 7] @ 8 # [0xFF, 0x41]) = (ITCHParser_init, Inr \<lparr>valid = True, msg_type = Some 2, order_ref = 0x0102030405060708, side = 0, shares = 0, price = 0, new_order_ref = 0, timestamp = 0, misc_data = 0\<rparr>)"
    using w1 [THEN conjunct2, THEN conjunct2, THEN conjunct2, THEN conjunct1, THEN mp,
      OF conjI [OF a conjI [OF b(1) conjI [OF c d]]]] .
  have g: "parse_message \<lparr>self_byte_index = 3, self_msg_type = Some DELETE_ORDER, self_msg_length = 9, self_buffer = [0x44, 1, 2], self_result = ParsedMessage_init\<rparr> [0x44, 1, 2] = (\<lparr>self_byte_index = 3, self_msg_type = Some DELETE_ORDER, self_msg_length = 9, self_buffer = [0x44, 1, 2], self_result = ParsedMessage_init\<rparr>, Inr (ParsedMessage_init\<lparr>valid := False\<rparr>))"
    using w2 [THEN conjunct2, THEN conjunct2, THEN conjunct2, THEN conjunct2, THEN conjunct1, THEN mp,
      OF conjI [OF e b(2)]] .
  show ?thesis
    by (intro conjI) (rule a b c d e f g)+
qed

subsection \<open>An unknown tag byte\<close>

text \<open>
  C4. On a parser that has consumed no byte of a frame (\<open>byte_index = 0\<close>), \<^verbatim>\<open>feed_byte\<close>
  with a byte that is not one of the nine tags does not raise, returns the invalid result
  and leaves the initial state: the byte is dropped. If a frame of a known type \<open>t\<close> and
  of the length of \<open>t\<close> follows, feeding goes on with one invalid result for each byte of
  the frame but the last, and with the last byte the valid result \<open>r\<close> that
  \<^verbatim>\<open>_decode_message\<close> gives for this frame; the parser is in the initial state again. The
  same results are given by a parser that starts with the frame.
\<close>

theorem unknown_tag_rejected:
  assumes "self_byte_index s = 0" and "MSG_CHAR_TO_TYPE b = None"
  shows "feed_byte s b = (ITCHParser_init, Inr (ParsedMessage_init\<lparr>valid := False\<rparr>))
    \<and> \<not> valid (ParsedMessage_init\<lparr>valid := False\<rparr>)
    \<and> (MSG_CHAR_TO_TYPE b' = Some t \<and> length (b' # bs) = MSG_LENGTHS t \<longrightarrow>
        (\<exists>r. decode_frame t (b' # bs) = Inr r \<and> valid r
            \<and> msg_type r = Some (MessageType_value t)
            \<and> feed_bytes s (b # b' # bs) =
                (ITCHParser_init,
                 Inr (ParsedMessage_init\<lparr>valid := False\<rparr>
                      # replicate (length bs) (ParsedMessage_init\<lparr>valid := False\<rparr>) @ [r]))
            \<and> feed_bytes ITCHParser_init (b' # bs) =
                (ITCHParser_init,
                 Inr (replicate (length bs) (ParsedMessage_init\<lparr>valid := False\<rparr>) @ [r]))))"
proof -
  have rej: "feed_byte s b = (ITCHParser_init, Inr (ParsedMessage_init\<lparr>valid := False\<rparr>))"
    using assms by (rule feed_byte_reject)
  have "\<exists>r. decode_frame t (b' # bs) = Inr r \<and> valid r
            \<and> msg_type r = Some (MessageType_value t)
            \<and> feed_bytes s (b # b' # bs) =
                (ITCHParser_init,
                 Inr (ParsedMessage_init\<lparr>valid := False\<rparr>
                      # replicate (length bs) (ParsedMessage_init\<lparr>valid := False\<rparr>) @ [r]))
            \<and> feed_bytes ITCHParser_init (b' # bs) =
                (ITCHParser_init,
                 Inr (replicate (length bs) (ParsedMessage_init\<lparr>valid := False\<rparr>) @ [r]))"
    if a: "MSG_CHAR_TO_TYPE b' = Some t \<and> length (b' # bs) = MSG_LENGTHS t"
  proof -
    obtain r where r: "decode_frame t (b' # bs) = Inr r" "valid r"
      "msg_type r = Some (MessageType_value t)"
      "feed_bytes ITCHParser_init (b' # bs) =
         (ITCHParser_init, Inr (replicate (length bs) (ParsedMessage_init\<lparr>valid := False\<rparr>) @ [r]))"
      using feed_frame [of ITCHParser_init b' t bs] a by (auto simp: init_fields)
    have "feed_bytes s (b # b' # bs) =
                (ITCHParser_init,
                 Inr (ParsedMessage_init\<lparr>valid := False\<rparr>
                      # replicate (length bs) (ParsedMessage_init\<lparr>valid := False\<rparr>) @ [r]))"
      using rej r(4) by (simp del: feed_bytes.simps(2) add: feed_bytes.simps(2) [of s b])
    then show ?thesis using r by blast
  qed
  then show ?thesis using rej by simp
qed

theorem unknown_tag_rejected_witness:
  "self_byte_index ITCHParser_init = 0 \<and> MSG_CHAR_TO_TYPE 0x5A = None
   \<and> MSG_CHAR_TO_TYPE 0x44 = Some DELETE_ORDER
   \<and> length (0x44 # [1 :: byte, 2, 3, 4, 5, 6, 7, 8]) = MSG_LENGTHS DELETE_ORDER
   \<and> feed_byte ITCHParser_init 0x5A = (ITCHParser_init, Inr (ParsedMessage_init\<lparr>valid := False\<rparr>))
   \<and> feed_bytes ITCHParser_init (0x5A # 0x44 # [1 :: byte, 2, 3, 4, 5, 6, 7, 8]) =
        (ITCHParser_init, Inr ((ParsedMessage_init\<lparr>valid := False\<rparr>) # replicate 8 (ParsedMessage_init\<lparr>valid := False\<rparr>) @ [\<lparr>valid = True, msg_type = Some 2, order_ref = 0x0102030405060708, side = 0, shares = 0, price = 0, new_order_ref = 0, timestamp = 0, misc_data = 0\<rparr>]))"
proof -
  have h1: "self_byte_index ITCHParser_init = 0" "MSG_CHAR_TO_TYPE 0x5A = None"
    by (simp_all add: init_fields MSG_CHAR_TO_TYPE_eq)
  have h2: "MSG_CHAR_TO_TYPE 0x44 = Some DELETE_ORDER
   \<and> length (0x44 # [1 :: byte, 2, 3, 4, 5, 6, 7, 8]) = MSG_LENGTHS DELETE_ORDER"
    by (simp add: MSG_CHAR_TO_TYPE_eq)
  have d: "decode_frame DELETE_ORDER (0x44 # [1 :: byte, 2, 3, 4, 5, 6, 7, 8]) = Inr \<lparr>valid = True, msg_type = Some 2, order_ref = 0x0102030405060708, side = 0, shares = 0, price = 0, new_order_ref = 0, timestamp = 0, misc_data = 0\<rparr>"
    by (simp add: decode_frame_def completed_def decode_message_def py_slice_def
          from_bytes_big_def ParsedMessage_init_def)
  have l: "length [1 :: byte, 2, 3, 4, 5, 6, 7, 8] = 8" by simp
  note w = unknown_tag_rejected [OF h1, of "0x44" DELETE_ORDER "[1 :: byte, 2, 3, 4, 5, 6, 7, 8]"]
  have rej: "feed_byte ITCHParser_init 0x5A = (ITCHParser_init, Inr (ParsedMessage_init\<lparr>valid := False\<rparr>))"
    using w by (rule conjunct1)
  obtain r where r: "decode_frame DELETE_ORDER (0x44 # [1 :: byte, 2, 3, 4, 5, 6, 7, 8]) = Inr r"
    "feed_bytes ITCHParser_init (0x5A # 0x44 # [1 :: byte, 2, 3, 4, 5, 6, 7, 8]) =
        (ITCHParser_init, Inr ((ParsedMessage_init\<lparr>valid := False\<rparr>) # replicate (length [1 :: byte, 2, 3, 4, 5, 6, 7, 8]) (ParsedMessage_init\<lparr>valid := False\<rparr>) @ [r]))"
    using w [THEN conjunct2, THEN conjunct2, THEN mp, OF h2] by blast
  have req: "r = \<lparr>valid = True, msg_type = Some 2, order_ref = 0x0102030405060708, side = 0, shares = 0, price = 0, new_order_ref = 0, timestamp = 0, misc_data = 0\<rparr>"
    using r(1) unfolding d by (rule sum.inject(2) [THEN iffD1, symmetric])
  have f: "feed_bytes ITCHParser_init (0x5A # 0x44 # [1 :: byte, 2, 3, 4, 5, 6, 7, 8]) =
        (ITCHParser_init, Inr ((ParsedMessage_init\<lparr>valid := False\<rparr>) # replicate 8 (ParsedMessage_init\<lparr>valid := False\<rparr>) @ [\<lparr>valid = True, msg_type = Some 2, order_ref = 0x0102030405060708, side = 0, shares = 0, price = 0, new_order_ref = 0, timestamp = 0, misc_data = 0\<rparr>]))"
    using r(2) unfolding l req .
  show ?thesis
    by (intro conjI) (rule h1 h2 [THEN conjunct1] h2 [THEN conjunct2] rej f)+
qed

subsection \<open>Generating a frame and parsing it\<close>

text \<open>
  C1. For each of the nine generators, when every integer argument fits its field
  (\<open>0 \<le> ts < 2^48\<close>, \<open>0 \<le> oref, noref, mid < 2^64\<close>, \<open>0 \<le> sh, pr < 2^32\<close>) and the
  strings \<open>stock\<close> and \<open>mpid\<close> are ASCII, the generator returns a frame, and
  \<^verbatim>\<open>parse_message\<close> on that frame returns a valid result of the generator's message type
  that carries the arguments in the fields the type defines and the default 0 in every
  other field: \<open>side\<close> is 1 (Sell) for the side \<^verbatim>\<open>'S'\<close> and 0 (Buy) for any other side,
  \<^verbatim>\<open>'B'\<close> included; \<open>misc_data\<close> is the big-endian value of the eight bytes of the stock
  symbol, padded with spaces, for ADD_ORDER and ADD_ORDER_MPID, and the match identifier
  for EXECUTED_ORDER, TRADE, EXECUTED_PRICE and BROKEN_TRADE.
\<close>

theorem generate_then_parse:
  assumes "0 \<le> ts" and "ts < 2 ^ 48"
    and "0 \<le> oref" and "oref < 2 ^ 64"
    and "0 \<le> noref" and "noref < 2 ^ 64"
    and "0 \<le> mid" and "mid < 2 ^ 64"
    and "0 \<le> sh" and "sh < 2 ^ 32"
    and "0 \<le> pr" and "pr < 2 ^ 32"
    and "is_ascii stock" and "is_ascii mpid"
  shows "(\<exists>frame. gen_delete_order oref = Inr frame \<and>
          snd (parse_message p frame) =
            Inr \<lparr>valid = True, msg_type = Some (MessageType_value DELETE_ORDER), order_ref = oref,
             side = 0, shares = 0, price = 0, new_order_ref = 0,
             timestamp = 0, misc_data = 0\<rparr>)
     \<and> (\<exists>frame. gen_add_order ts oref sd sh stock pr = Inr frame \<and>
          snd (parse_message p frame) =
            Inr \<lparr>valid = True, msg_type = Some (MessageType_value ADD_ORDER), order_ref = oref,
             side = (if sd = ''S'' then 1 else 0), shares = sh, price = pr, new_order_ref = 0,
             timestamp = ts, misc_data = from_bytes_big (map of_char (take 8 (ljust stock 8)))\<rparr>)
     \<and> (\<exists>frame. gen_cancel_order ts oref sh = Inr frame \<and>
          snd (parse_message p frame) =
            Inr \<lparr>valid = True, msg_type = Some (MessageType_value CANCEL_ORDER), order_ref = oref,
             side = 0, shares = sh, price = 0, new_order_ref = 0,
             timestamp = ts, misc_data = 0\<rparr>)
     \<and> (\<exists>frame. gen_executed_order ts oref sh mid = Inr frame \<and>
          snd (parse_message p frame) =
            Inr \<lparr>valid = True, msg_type = Some (MessageType_value EXECUTED_ORDER), order_ref = oref,
             side = 0, shares = sh, price = 0, new_order_ref = 0,
             timestamp = ts, misc_data = mid\<rparr>)
     \<and> (\<exists>frame. gen_replace_order ts oref noref sh = Inr frame \<and>
          snd (parse_message p frame) =
            Inr \<lparr>valid = True, msg_type = Some (MessageType_value REPLACE_ORDER), order_ref = oref,
             side = 0, shares = sh, price = 0, new_order_ref = noref,
             timestamp = ts, misc_data = 0\<rparr>)
     \<and> (\<exists>frame. gen_trade ts oref sd sh stock pr mid = Inr frame \<and>
          snd (parse_message p frame) =
            Inr \<lparr>valid = True, msg_type = Some (MessageType_value TRADE), order_ref = oref,
             side = (if sd = ''S'' then 1 else 0), shares = sh, price = pr, new_order_ref = 0,
             timestamp = ts, misc_data = mid\<rparr>)
     \<and> (\<exists>frame. gen_add_order_mpid ts oref sd sh stock pr mpid = Inr frame \<and>
          snd (parse_message p frame) =
            Inr \<lparr>valid = True, msg_type = Some (MessageType_value ADD_ORDER_MPID), order_ref = oref,
             side = (if sd = ''S'' then 1 else 0), shares = sh, price = pr, new_order_ref = 0,
             timestamp = ts, misc_data = from_bytes_big (map of_char (take 8 (ljust stock 8)))\<rparr>)
     \<and> (\<exists>frame. gen_executed_price ts oref sh mid printable pr = Inr frame \<and>
          snd (parse_message p frame) =
            Inr \<lparr>valid = True, msg_type = Some (MessageType_value EXECUTED_PRICE), order_ref = oref,
             side = 0, shares = sh, price = pr, new_order_ref = 0,
             timestamp = ts, misc_data = mid\<rparr>)
     \<and> (\<exists>frame. gen_broken_trade ts mid = Inr frame \<and>
          snd (parse_message p frame) =
            Inr \<lparr>valid = True, msg_type = Some (MessageType_value BROKEN_TRADE), order_ref = 0,
             side = 0, shares = 0, price = 0, new_order_ref = 0,
             timestamp = ts, misc_data = mid\<rparr>)"
proof -
  have delete_order: "(\<exists>frame. gen_delete_order oref = Inr frame \<and>
          snd (parse_message p frame) =
            Inr \<lparr>valid = True, msg_type = Some (MessageType_value DELETE_ORDER), order_ref = oref,
             side = 0, shares = 0, price = 0, new_order_ref = 0,
             timestamp = 0, misc_data = 0\<rparr>)"
    by (rule ex_frame_drop_length, rule delete_order_parse) (rule assms)+
  have add_order: "(\<exists>frame. gen_add_order ts oref sd sh stock pr = Inr frame \<and>
          snd (parse_message p frame) =
            Inr \<lparr>valid = True, msg_type = Some (MessageType_value ADD_ORDER), order_ref = oref,
             side = (if sd = ''S'' then 1 else 0), shares = sh, price = pr, new_order_ref = 0,
             timestamp = ts, misc_data = from_bytes_big (map of_char (take 8 (ljust stock 8)))\<rparr>)"
    by (rule ex_frame_drop_length, rule add_order_parse) (rule assms)+
  have cancel_order: "(\<exists>frame. gen_cancel_order ts oref sh = Inr frame \<and>
          snd (parse_message p frame) =
            Inr \<lparr>valid = True, msg_type = Some (MessageType_value CANCEL_ORDER), order_ref = oref,
             side = 0, shares = sh, price = 0, new_order_ref = 0,
             timestamp = ts, misc_data = 0\<rparr>)"
    by (rule ex_frame_drop_length, rule cancel_order_parse) (rule assms)+
  have executed_order: "(\<exists>frame. gen_executed_order ts oref sh mid = Inr frame \<and>
          snd (parse_message p frame) =
            Inr \<lparr>valid = True, msg_type = Some (MessageType_value EXECUTED_ORDER), order_ref = oref,
             side = 0, shares = sh, price = 0, new_order_ref = 0,
             timestamp = ts, misc_data = mid\<rparr>)"
    by (rule ex_frame_drop_length, rule executed_order_parse) (rule assms)+
  have replace_order: "(\<exists>frame. gen_replace_order ts oref noref sh = Inr frame \<and>
          snd (parse_message p frame) =
            Inr \<lparr>valid = True, msg_type = Some (MessageType_value REPLACE_ORDER), order_ref = oref,
             side = 0, shares = sh, price = 0, new_order_ref = noref,
             timestamp = ts, misc_data = 0\<rparr>)"
    by (rule ex_frame_drop_length, rule replace_order_parse) (rule assms)+
  have trade: "(\<exists>frame. gen_trade ts oref sd sh stock pr mid = Inr frame \<and>
          snd (parse_message p frame) =
            Inr \<lparr>valid = True, msg_type = Some (MessageType_value TRADE), order_ref = oref,
             side = (if sd = ''S'' then 1 else 0), shares = sh, price = pr, new_order_ref = 0,
             timestamp = ts, misc_data = mid\<rparr>)"
    by (rule ex_frame_drop_length, rule trade_parse) (rule assms)+
  have add_order_mpid: "(\<exists>frame. gen_add_order_mpid ts oref sd sh stock pr mpid = Inr frame \<and>
          snd (parse_message p frame) =
            Inr \<lparr>valid = True, msg_type = Some (MessageType_value ADD_ORDER_MPID), order_ref = oref,
             side = (if sd = ''S'' then 1 else 0), shares = sh, price = pr, new_order_ref = 0,
             timestamp = ts, misc_data = from_bytes_big (map of_char (take 8 (ljust stock 8)))\<rparr>)"
    by (rule ex_frame_drop_length, rule add_order_mpid_parse) (rule assms)+
  have executed_price: "(\<exists>frame. gen_executed_price ts oref sh mid printable pr = Inr frame \<and>
          snd (parse_message p frame) =
            Inr \<lparr>valid = True, msg_type = Some (MessageType_value EXECUTED_PRICE), order_ref = oref,
             side = 0, shares = sh, price = pr, new_order_ref = 0,
             timestamp = ts, misc_data = mid\<rparr>)"
    by (rule ex_frame_drop_length, rule executed_price_parse) (rule assms)+
  have broken_trade: "(\<exists>frame. gen_broken_trade ts mid = Inr frame \<and>
          snd (parse_message p frame) =
            Inr \<lparr>valid = True, msg_type = Some (MessageType_value BROKEN_TRADE), order_ref = 0,
             side = 0, shares = 0, price = 0, new_order_ref = 0,
             timestamp = ts, misc_data = mid\<rparr>)"
    by (rule ex_frame_drop_length, rule broken_trade_parse) (rule assms)+
  show ?thesis
    by (intro conjI) (rule delete_order add_order cancel_order executed_order replace_order trade add_order_mpid executed_price broken_trade)+
qed

theorem generate_then_parse_witness:
  "(0::int) \<le> 0x000001020304
   \<and> (0x000001020304::int) < 2 ^ 48
   \<and> (0::int) \<le> 0x1122334455667788
   \<and> (0x1122334455667788::int) < 2 ^ 64
   \<and> (0::int) \<le> 0x0000000000000002
   \<and> (0x0000000000000002::int) < 2 ^ 64
   \<and> (0::int) \<le> 0x1234567890ABCDEF
   \<and> (0x1234567890ABCDEF::int) < 2 ^ 64
   \<and> (0::int) \<le> 1000
   \<and> (1000::int) < 2 ^ 32
   \<and> (0::int) \<le> 100000
   \<and> (100000::int) < 2 ^ 32
   \<and> is_ascii ''APPL''
   \<and> is_ascii ''ABCD''
   \<and> (\<exists>frame. gen_add_order 0x000001020304 0x1122334455667788 ''S'' 1000 ''APPL'' 100000 = Inr frame \<and>
          snd (parse_message ITCHParser_init frame) =
            Inr \<lparr>valid = True, msg_type = Some 0, order_ref = 0x1122334455667788, side = 1, shares = 1000, price = 100000, new_order_ref = 0, timestamp = 0x000001020304, misc_data = 0x4150504C20202020\<rparr>)"
proof -
  have h1: "(0::int) \<le> 0x000001020304" by (simp add: is_ascii_def)
  have h2: "(0x000001020304::int) < 2 ^ 48" by (simp add: is_ascii_def)
  have h3: "(0::int) \<le> 0x1122334455667788" by (simp add: is_ascii_def)
  have h4: "(0x1122334455667788::int) < 2 ^ 64" by (simp add: is_ascii_def)
  have h5: "(0::int) \<le> 0x0000000000000002" by (simp add: is_ascii_def)
  have h6: "(0x0000000000000002::int) < 2 ^ 64" by (simp add: is_ascii_def)
  have h7: "(0::int) \<le> 0x1234567890ABCDEF" by (simp add: is_ascii_def)
  have h8: "(0x1234567890ABCDEF::int) < 2 ^ 64" by (simp add: is_ascii_def)
  have h9: "(0::int) \<le> 1000" by (simp add: is_ascii_def)
  have h10: "(1000::int) < 2 ^ 32" by (simp add: is_ascii_def)
  have h11: "(0::int) \<le> 100000" by (simp add: is_ascii_def)
  have h12: "(100000::int) < 2 ^ 32" by (simp add: is_ascii_def)
  have h13: "is_ascii ''APPL''" by (simp add: is_ascii_def)
  have h14: "is_ascii ''ABCD''" by (simp add: is_ascii_def)
  note w = generate_then_parse [where sd = "''S''" and stock = "''APPL''" and mpid = "''ABCD''"
      and printable = True and p = ITCHParser_init, OF h1 h2 h3 h4 h5 h6 h7 h8 h9 h10 h11 h12 h13 h14]
  have r4: "replicate 4 CHR '' '' = ''    ''"
    by (simp add: numeral_eq_Suc)
  have l: "take 8 (ljust ''APPL'' 8) = ''APPL    ''"
    by (simp add: ljust_def r4)
  have m: "from_bytes_big (map of_char (take 8 (ljust ''APPL'' 8))) = 0x4150504C20202020"
    unfolding l by (simp add: from_bytes_big_def)
  have c: "(\<exists>frame. gen_add_order 0x000001020304 0x1122334455667788 ''S'' 1000 ''APPL'' 100000 = Inr frame \<and>
          snd (parse_message ITCHParser_init frame) =
            Inr \<lparr>valid = True, msg_type = Some 0, order_ref = 0x1122334455667788, side = 1, shares = 1000, price = 100000, new_order_ref = 0, timestamp = 0x000001020304, misc_data = 0x4150504C20202020\<rparr>)"
    using w [THEN conjunct2, THEN conjunct1] unfolding m by simp
  show ?thesis
    by (intro conjI) (rule h1 h2 h3 h4 h5 h6 h7 h8 h9 h10 h11 h12 h13 h14 c)+
qed

text \<open>
  C5. Under the same conditions on the arguments, with any side, the frame a generator
  returns has the length that \<^verbatim>\<open>MSG_LENGTHS\<close> gives its message type: ADD_ORDER 36,
  CANCEL_ORDER 23, DELETE_ORDER 9, EXECUTED_ORDER 30, REPLACE_ORDER 27, TRADE 40,
  ADD_ORDER_MPID 40, EXECUTED_PRICE 36, BROKEN_TRADE 19.
\<close>

theorem generated_frame_lengths:
  assumes "0 \<le> ts" and "ts < 2 ^ 48"
    and "0 \<le> oref" and "oref < 2 ^ 64"
    and "0 \<le> noref" and "noref < 2 ^ 64"
    and "0 \<le> mid" and "mid < 2 ^ 64"
    and "0 \<le> sh" and "sh < 2 ^ 32"
    and "0 \<le> pr" and "pr < 2 ^ 32"
    and "is_ascii stock" and "is_ascii mpid"
  shows "(\<exists>frame. gen_delete_order oref = Inr frame \<and>
          length frame = MSG_LENGTHS DELETE_ORDER \<and> length frame = 9)
     \<and> (\<exists>frame. gen_add_order ts oref sd sh stock pr = Inr frame \<and>
          length frame = MSG_LENGTHS ADD_ORDER \<and> length frame = 36)
     \<and> (\<exists>frame. gen_cancel_order ts oref sh = Inr frame \<and>
          length frame = MSG_LENGTHS CANCEL_ORDER \<and> length frame = 23)
     \<and> (\<exists>frame. gen_executed_order ts oref sh mid = Inr frame \<and>
          length frame = MSG_LENGTHS EXECUTED_ORDER \<and> length frame = 30)
     \<and> (\<exists>frame. gen_replace_order ts oref noref sh = Inr frame \<and>
          length frame = MSG_LENGTHS REPLACE_ORDER \<and> length frame = 27)
     \<and> (\<exists>frame. gen_trade ts oref sd sh stock pr mid = Inr frame \<and>
          length frame = MSG_LENGTHS TRADE \<and> length frame = 40)
     \<and> (\<exists>frame. gen_add_order_mpid ts oref sd sh stock pr mpid = Inr frame \<and>
          length frame = MSG_LENGTHS ADD_ORDER_MPID \<and> length frame = 40)
     \<and> (\<exists>frame. gen_executed_price ts oref sh mid printable pr = Inr frame \<and>
          length frame = MSG_LENGTHS EXECUTED_PRICE \<and> length frame = 36)
     \<and> (\<exists>frame. gen_broken_trade ts mid = Inr frame \<and>
          length frame = MSG_LENGTHS BROKEN_TRADE \<and> length frame = 19)"
proof -
  have delete_order: "(\<exists>frame. gen_delete_order oref = Inr frame \<and>
          length frame = MSG_LENGTHS DELETE_ORDER \<and> length frame = 9)"
    by (rule ex_frame_length, rule delete_order_parse [where p = ITCHParser_init]) (rule assms | simp)+
  have add_order: "(\<exists>frame. gen_add_order ts oref sd sh stock pr = Inr frame \<and>
          length frame = MSG_LENGTHS ADD_ORDER \<and> length frame = 36)"
    by (rule ex_frame_length, rule add_order_parse [where p = ITCHParser_init]) (rule assms | simp)+
  have cancel_order: "(\<exists>frame. gen_cancel_order ts oref sh = Inr frame \<and>
          length frame = MSG_LENGTHS CANCEL_ORDER \<and> length frame = 23)"
    by (rule ex_frame_length, rule cancel_order_parse [where p = ITCHParser_init]) (rule assms | simp)+
  have executed_order: "(\<exists>frame. gen_executed_order ts oref sh mid = Inr frame \<and>
          length frame = MSG_LENGTHS EXECUTED_ORDER \<and> length frame = 30)"
    by (rule ex_frame_length, rule executed_order_parse [where p = ITCHParser_init]) (rule assms | simp)+
  have replace_order: "(\<exists>frame. gen_replace_order ts oref noref sh = Inr frame \<and>
          length frame = MSG_LENGTHS REPLACE_ORDER \<and> length frame = 27)"
    by (rule ex_frame_length, rule replace_order_parse [where p = ITCHParser_init]) (rule assms | simp)+
  have trade: "(\<exists>frame. gen_trade ts oref sd sh stock pr mid = Inr frame \<and>
          length frame = MSG_LENGTHS TRADE \<and> length frame = 40)"
    by (rule ex_frame_length, rule trade_parse [where p = ITCHParser_init]) (rule assms | simp)+
  have add_order_mpid: "(\<exists>frame. gen_add_order_mpid ts oref sd sh stock pr mpid = Inr frame \<and>
          length frame = MSG_LENGTHS ADD_ORDER_MPID \<and> length frame = 40)"
    by (rule ex_frame_length, rule add_order_mpid_parse [where p = ITCHParser_init]) (rule assms | simp)+
  have executed_price: "(\<exists>frame. gen_executed_price ts oref sh mid printable pr = Inr frame \<and>
          length frame = MSG_LENGTHS EXECUTED_PRICE \<and> length frame = 36)"
    by (rule ex_frame_length, rule executed_price_parse [where p = ITCHParser_init]) (rule assms | simp)+
  have broken_trade: "(\<exists>frame. gen_broken_trade ts mid = Inr frame \<and>
          length frame = MSG_LENGTHS BROKEN_TRADE \<and> length frame = 19)"
    by (rule ex_frame_length, rule broken_trade_parse [where p = ITCHParser_init]) (rule assms | simp)+
  show ?thesis
    by (intro conjI) (rule delete_order add_order cancel_order executed_order replace_order trade add_order_mpid executed_price broken_trade)+
qed

theorem generated_frame_lengths_witness:
  "(0::int) \<le> 0x000001020304
   \<and> (0x000001020304::int) < 2 ^ 48
   \<and> (0::int) \<le> 0x1122334455667788
   \<and> (0x1122334455667788::int) < 2 ^ 64
   \<and> (0::int) \<le> 0x0000000000000002
   \<and> (0x0000000000000002::int) < 2 ^ 64
   \<and> (0::int) \<le> 0x1234567890ABCDEF
   \<and> (0x1234567890ABCDEF::int) < 2 ^ 64
   \<and> (0::int) \<le> 1000
   \<and> (1000::int) < 2 ^ 32
   \<and> (0::int) \<le> 100000
   \<and> (100000::int) < 2 ^ 32
   \<and> is_ascii ''APPL''
   \<and> is_ascii ''ABCD''
   \<and> (\<exists>frame. gen_add_order 0x000001020304 0x1122334455667788 ''S'' 1000 ''APPL'' 100000 = Inr frame \<and>
          length frame = MSG_LENGTHS ADD_ORDER \<and> length frame = 36)"
proof -
  have h1: "(0::int) \<le> 0x000001020304" by (simp add: is_ascii_def)
  have h2: "(0x000001020304::int) < 2 ^ 48" by (simp add: is_ascii_def)
  have h3: "(0::int) \<le> 0x1122334455667788" by (simp add: is_ascii_def)
  have h4: "(0x1122334455667788::int) < 2 ^ 64" by (simp add: is_ascii_def)
  have h5: "(0::int) \<le> 0x0000000000000002" by (simp add: is_ascii_def)
  have h6: "(0x0000000000000002::int) < 2 ^ 64" by (simp add: is_ascii_def)
  have h7: "(0::int) \<le> 0x1234567890ABCDEF" by (simp add: is_ascii_def)
  have h8: "(0x1234567890ABCDEF::int) < 2 ^ 64" by (simp add: is_ascii_def)
  have h9: "(0::int) \<le> 1000" by (simp add: is_ascii_def)
  have h10: "(1000::int) < 2 ^ 32" by (simp add: is_ascii_def)
  have h11: "(0::int) \<le> 100000" by (simp add: is_ascii_def)
  have h12: "(100000::int) < 2 ^ 32" by (simp add: is_ascii_def)
  have h13: "is_ascii ''APPL''" by (simp add: is_ascii_def)
  have h14: "is_ascii ''ABCD''" by (simp add: is_ascii_def)
  note w = generated_frame_lengths [where sd = "''S''" and stock = "''APPL''" and mpid = "''ABCD''"
      and printable = True, OF h1 h2 h3 h4 h5 h6 h7 h8 h9 h10 h11 h12 h13 h14]
  have c: "(\<exists>frame. gen_add_order 0x000001020304 0x1122334455667788 ''S'' 1000 ''APPL'' 100000 = Inr frame \<and>
          length frame = MSG_LENGTHS ADD_ORDER \<and> length frame = 36)"
    using w [THEN conjunct2, THEN conjunct1] .
  show ?thesis
    by (intro conjI) (rule h1 h2 h3 h4 h5 h6 h7 h8 h9 h10 h11 h12 h13 h14 c)+
qed

end
